theory Spec2Isabelle
  imports Main "HOL-Library.Sublist" "HOL-Library.Char_ord" "HOL-Library.AList"
begin

section \<open>Strings and paths\<close>

text \<open>The functions of Go's \<open>strings\<close> and \<open>path/filepath\<close> packages that the program
  calls, for a Unix system (the separator is the slash, \<open>filepath.ToSlash\<close> is the
  identity). A Go string is a byte sequence, here a list of characters.\<close>

text \<open>\<open>strings.Split s sep\<close> for a one-character separator.\<close>

fun splitOn :: "char \<Rightarrow> string \<Rightarrow> string list" where
  "splitOn sep [] = [[]]"
| "splitOn sep (c # cs) =
     (if c = sep then [] # splitOn sep cs
      else (case splitOn sep cs of [] \<Rightarrow> [[c]] | p # ps \<Rightarrow> (c # p) # ps))"

text \<open>\<open>strings.Join elems sep\<close>.\<close>

fun joinWith :: "string \<Rightarrow> string list \<Rightarrow> string" where
  "joinWith sep [] = []"
| "joinWith sep [x] = x"
| "joinWith sep (x # y # ys) = x @ sep @ joinWith sep (y # ys)"

definition HasPrefix :: "string \<Rightarrow> string \<Rightarrow> bool" where
  "HasPrefix s p = (take (length p) s = p)"

definition HasSuffix :: "string \<Rightarrow> string \<Rightarrow> bool" where
  "HasSuffix s p = (length p \<le> length s \<and> drop (length s - length p) s = p)"

definition TrimSuffix :: "string \<Rightarrow> string \<Rightarrow> string" where
  "TrimSuffix s suf = (if HasSuffix s suf then take (length s - length suf) s else s)"

text \<open>\<open>strings.Trim s "/"\<close> and \<open>strings.Count s "/"\<close>.\<close>

definition TrimSlashes :: "string \<Rightarrow> string" where
  "TrimSlashes s =
     rev (dropWhile (\<lambda>c. c = CHR ''/'') (rev (dropWhile (\<lambda>c. c = CHR ''/'') s)))"

definition CountSlashes :: "string \<Rightarrow> nat" where
  "CountSlashes s = length (filter (\<lambda>c. c = CHR ''/'') s)"

text \<open>\<open>filepath.Clean\<close> works through the elements of the path with an output stack
  (here reversed, the last element first): empty elements and \<open>.\<close> are dropped, \<open>..\<close>
  removes the element before it, is dropped at the root, and is kept at the start of a
  relative path.\<close>

fun cleanElems :: "bool \<Rightarrow> string list \<Rightarrow> string list \<Rightarrow> string list" where
  "cleanElems rooted out [] = rev out"
| "cleanElems rooted out (e # es) =
     (if e = '''' \<or> e = ''.'' then cleanElems rooted out es
      else if e = ''..'' then
        (case out of
           [] \<Rightarrow> if rooted then cleanElems rooted out es else cleanElems rooted [''..''] es
         | x # xs \<Rightarrow>
             if x = ''..'' then cleanElems rooted (''..'' # out) es
             else cleanElems rooted xs es)
      else cleanElems rooted (e # out) es)"

definition pathOf :: "bool \<Rightarrow> string list \<Rightarrow> string" where
  "pathOf rooted es =
     (if rooted then CHR ''/'' # joinWith ''/'' es
      else if es = [] then ''.'' else joinWith ''/'' es)"

definition Clean :: "string \<Rightarrow> string" where
  "Clean path =
     (if path = '''' then ''.''
      else let rooted = (hd path = CHR ''/'')
           in pathOf rooted (cleanElems rooted [] (splitOn (CHR ''/'') path)))"

text \<open>The element lists that \<open>filepath.Clean\<close> produces: a block of \<open>..\<close> at the start, none
  for a rooted path, then elements that are neither empty nor \<open>.\<close> nor \<open>..\<close> and hold no
  slash.\<close>

definition normalElems :: "bool \<Rightarrow> string list \<Rightarrow> bool" where
  "normalElems rooted es =
     (\<exists>k ys. es = replicate k ''..'' @ ys \<and> (rooted \<longrightarrow> k = 0) \<and>
             (\<forall>e\<in>set ys. e \<noteq> '''' \<and> e \<noteq> ''.'' \<and> e \<noteq> ''..'' \<and> CHR ''/'' \<notin> set e))"

text \<open>\<open>filepath.Join\<close>: the elements from the first non-empty one on, joined by slashes
  and cleaned; the empty string when every element is empty.\<close>

fun Join :: "string list \<Rightarrow> string" where
  "Join [] = ''''"
| "Join (e # es) = (if e \<noteq> '''' then Clean (joinWith ''/'' (e # es)) else Join es)"

text \<open>\<open>filepath.Dir\<close>: the path up to its last slash, cleaned.\<close>

definition Dir :: "string \<Rightarrow> string" where
  "Dir path = Clean (rev (dropWhile (\<lambda>c. c \<noteq> CHR ''/'') (rev path)))"

definition IsAbs :: "string \<Rightarrow> bool" where
  "IsAbs path = HasPrefix path ''/''"

section \<open>Data\<close>

text \<open>A git reference as fetched from the remote: type \<open>HEAD\<close>, \<open>branch\<close>, \<open>tag\<close> or the raw
  ref-type segment, its name and its commit hash.\<close>

record Ref =
  Type :: string
  Name :: string
  Hash :: string

text \<open>A parsed repository source.\<close>

record Source =
  Site :: string
  Owner :: string
  Repo :: string
  Ref :: string
  Subdir :: string
  URL :: string
  SSH :: string

text \<open>The options of a \<open>Degit\<close> instance; \<open>Cache\<close> is the offline mode.\<close>

record Options =
  Force :: bool
  Cache :: bool
  Mode :: string
  Verbose :: bool
  Token :: string

text \<open>An action of the manifest \<open>degit.json\<close>. The fields \<open>Cache\<close> and \<open>Verbose\<close> of the Go
  struct carry a suffix here, since \<open>Options\<close> has fields of the same names.\<close>

record Action =
  Action :: string
  Src :: string
  Files :: "string list"
  Cache_a :: bool
  Verbose_a :: bool

text \<open>The fields of \<open>tar.Header\<close> that the extraction reads.\<close>

datatype TypeFlag = TypeReg | TypeDir | TypeSymlink | TypeOther

record Header =
  Name_h :: string
  Typeflag :: TypeFlag
  Mode_h :: int
  Linkname :: string

type_synonym RefMap = "(string \<times> string) list"

section \<open>The file system\<close>

text \<open>The content of a file is represented by what the decoders of the program make of
  it: a JSON object with string values (\<open>map.json\<close>, \<open>access.json\<close>), a JSON array of
  actions (\<open>degit.json\<close>), a gzip-compressed tar stream (its entries, each a header
  and the content of the entry, and whether the stream is intact after them), or bytes
  that none of these decoders accepts.\<close>

datatype filedata =
    Bytes string
  | JsonObject "(string \<times> string) list"
  | JsonActions "Action list"
  | TarGz "(Header \<times> filedata) list" bool

datatype node = FileNode filedata | DirNode | LinkNode string

type_synonym tree = "(string \<times> node) list"

datatype oserr = ENOENT | ENOTDIR | EISDIR | EEXIST | ENOTEMPTY | EIO

definition IsNotExist :: "oserr \<Rightarrow> bool" where
  "IsNotExist e = (e = ENOENT)"

datatype sysop = OpStat | OpReadFile | OpWriteFile | OpMkdirAll | OpRemove | OpRemoveAll
  | OpReadDir | OpSymlink | OpRename | OpMkdirTemp

text \<open>The errors the program returns, one constructor for each message it builds; an
  error wrapped with \<open>%w\<close> or printed with \<open>%v\<close> is an argument.\<close>

datatype error =
    CouldNotParseSource string
  | UnsupportedHost string
  | NoHead
  | UnresolvedRef string
  | OsError oserr
  | JsonError
  | OpenTarballFailed oserr
  | GzipReaderFailed
  | ReadTarEntryFailed
  | CreateDestinationFailed oserr
  | PathTraversal string
  | CreateDirectoryFailed oserr
  | ExtractFileFailed oserr
  | RemoveDirectoryFailed string oserr
  | RemoveFileFailed string oserr
  | ParseManifestFailed error
  | CloneRequiresSrc
  | ActionFailed nat string error
  | ExecuteActionsFailed error
  | DestinationNotEmpty string
  | RefNotInCache string
  | NoRefsNoCache error
  | CouldNotResolveRef string error
  | TarballNotInCache string
  | DownloadTarballFailed error
  | ExtractTarballFailed error
  | TarAndGitFailed error error
  | GitNotFound
  | GitCloneFailed
  | TempDirFailed oserr
  | SubdirNotFound string oserr
  | MoveFailed oserr
  | FetchRefsFailed string
  | NoRefsFromApi
  | RequestFailed
  | NotFound404
  | Unauthorized401
  | Forbidden403
  | DownloadStatus nat
  | ApiAndDirectFailed error error
  | SaveDirFailed oserr
  | SaveFileFailed oserr
  | TooManyRedirects

text \<open>What \<open>sdk.Warning\<close> and \<open>sdk.Info\<close> print: the text, and the error or the number
  formatted into it.\<close>

datatype message =
    Warning string
  | Info string
  | WarningE string error
  | InfoN string nat

text \<open>What the program asks of the network and of the git binary.\<close>

datatype call =
    RunGit "string list"
  | LsRemote string
  | ApiRefs string string
  | HttpGet string string

text \<open>The world a call runs in. The file tree maps cleaned paths to nodes; \<open>fault\<close> tells
  which operations the system refuses (permissions, input-output errors); \<open>clock\<close> is
  the current time as \<open>time.Now().UTC().Format(time.RFC3339)\<close> prints it; \<open>console\<close> is
  what has been printed. Symbolic links are stored, never followed, and permission bits
  are not kept: a refusal they would cause is a \<open>fault\<close>.

  The rest is the environment: the home directory (\<open>os.UserHomeDir\<close>, if it succeeds),
  \<open>os.TempDir\<close>, the name \<open>os.MkdirTemp\<close> picks, the token \<open>auth.GitHubToken\<close> finds,
  whether \<open>git\<close> is on the path, what running \<open>git\<close> with given arguments does to the
  tree and whether it succeeds, what \<open>git ls-remote\<close> and the GitHub API list as
  references of a repository, the final response to a GET request (status and body,
  for a URL and an Authorization header), and the trace of these calls.\<close>

record world =
  files :: tree
  fault :: "sysop \<Rightarrow> string \<Rightarrow> bool"
  clock :: string
  console :: "message list"
  home :: "string option"
  tempdir :: string
  fresh_temp :: string
  token :: string
  git_found :: bool
  git :: "string list \<Rightarrow> tree \<Rightarrow> bool \<times> tree"
  ls_remote :: "string \<Rightarrow> Ref list option"
  api_refs :: "string \<Rightarrow> string \<Rightarrow> Ref list option"
  http_get :: "string \<Rightarrow> string \<Rightarrow> (nat \<times> filedata) option"
  calls :: "call list"

definition say :: "message \<Rightarrow> world \<Rightarrow> world" where
  "say m w = w\<lparr>console := console w @ [m]\<rparr>"

text \<open>The node at a path; the root and the working directory always exist.\<close>

definition nodeAt :: "tree \<Rightarrow> string \<Rightarrow> node option" where
  "nodeAt t p = (let q = Clean p in if q = ''/'' \<or> q = ''.'' then Some DirNode else map_of t q)"

text \<open>The directories above a path, outermost first.\<close>

definition ancestors :: "string \<Rightarrow> string list" where
  "ancestors p =
     (let q = Clean p;
          es = filter (\<lambda>e. e \<noteq> '''') (splitOn (CHR ''/'') q)
      in if q = ''.'' then [] else map (pathOf (hd q = CHR ''/'')) (butlast (prefixes es)))"

definition isUnder :: "string \<Rightarrow> string \<Rightarrow> bool" where
  "isUnder d k = (Clean d \<in> set (ancestors k))"

text \<open>A path is blocked when something above it exists and is not a directory.\<close>

definition blocked :: "tree \<Rightarrow> string \<Rightarrow> bool" where
  "blocked t p =
     list_ex (\<lambda>a. case nodeAt t a of None \<Rightarrow> False | Some n \<Rightarrow> n \<noteq> DirNode) (ancestors p)"

definition missing :: "tree \<Rightarrow> string \<Rightarrow> oserr" where
  "missing t p = (if blocked t p then ENOTDIR else ENOENT)"

definition Stat :: "world \<Rightarrow> string \<Rightarrow> oserr + node" where
  "Stat w p =
     (if fault w OpStat (Clean p) then Inl EIO
      else case nodeAt (files w) p of
             Some n \<Rightarrow> Inr n
           | None \<Rightarrow> Inl (missing (files w) p))"

definition ReadFile :: "world \<Rightarrow> string \<Rightarrow> oserr + filedata" where
  "ReadFile w p =
     (if fault w OpReadFile (Clean p) then Inl EIO
      else case nodeAt (files w) p of
             Some (FileNode d) \<Rightarrow> Inr d
           | Some DirNode \<Rightarrow> Inl EISDIR
           | Some (LinkNode t) \<Rightarrow> Inl EIO
           | None \<Rightarrow> Inl (missing (files w) p))"

definition addDir :: "string \<Rightarrow> tree \<Rightarrow> tree" where
  "addDir d t = (if nodeAt t d = None then t @ [(Clean d, DirNode)] else t)"

definition MkdirAll :: "world \<Rightarrow> string \<Rightarrow> oserr option \<times> world" where
  "MkdirAll w p =
     (if fault w OpMkdirAll (Clean p) then (Some EIO, w)
      else if blocked (files w) p then (Some ENOTDIR, w)
      else case nodeAt (files w) p of
             Some DirNode \<Rightarrow> (None, w)
           | Some n \<Rightarrow> (Some ENOTDIR, w)
           | None \<Rightarrow> (None, w\<lparr>files := fold addDir (ancestors p @ [Clean p]) (files w)\<rparr>))"

text \<open>Writing a whole file: \<open>os.WriteFile\<close>, and \<open>os.OpenFile\<close> with create and truncate
  followed by \<open>io.Copy\<close>.\<close>

definition WriteFile :: "world \<Rightarrow> string \<Rightarrow> filedata \<Rightarrow> oserr option \<times> world" where
  "WriteFile w p d =
     (if fault w OpWriteFile (Clean p) then (Some EIO, w)
      else if nodeAt (files w) (Dir (Clean p)) \<noteq> Some DirNode then (Some (missing (files w) p), w)
      else if nodeAt (files w) p = Some DirNode then (Some EISDIR, w)
      else (None, w\<lparr>files := AList.update (Clean p) (FileNode d) (files w)\<rparr>))"

definition Remove :: "world \<Rightarrow> string \<Rightarrow> oserr option \<times> world" where
  "Remove w p =
     (if fault w OpRemove (Clean p) then (Some EIO, w)
      else case nodeAt (files w) p of
             None \<Rightarrow> (Some (missing (files w) p), w)
           | Some n \<Rightarrow>
               if n = DirNode \<and> list_ex (\<lambda>(k, v). isUnder p k) (files w) then (Some ENOTEMPTY, w)
               else (None, w\<lparr>files := AList.delete (Clean p) (files w)\<rparr>))"

definition RemoveAll :: "world \<Rightarrow> string \<Rightarrow> oserr option \<times> world" where
  "RemoveAll w p =
     (if fault w OpRemoveAll (Clean p) then (Some EIO, w)
      else (None, w\<lparr>files := filter (\<lambda>(k, v). k \<noteq> Clean p \<and> \<not> isUnder p k) (files w)\<rparr>))"

definition Symlink :: "world \<Rightarrow> string \<Rightarrow> string \<Rightarrow> oserr option \<times> world" where
  "Symlink w target p =
     (if fault w OpSymlink (Clean p) then (Some EIO, w)
      else if nodeAt (files w) p \<noteq> None then (Some EEXIST, w)
      else if nodeAt (files w) (Dir (Clean p)) \<noteq> Some DirNode then (Some (missing (files w) p), w)
      else (None, w\<lparr>files := files w @ [(Clean p, LinkNode target)]\<rparr>))"

section \<open>Extraction of an archive\<close>

record ExtractOptions =
  StripComponents :: nat
  Subdir_x :: string

text \<open>\<open>stripPath\<close> removes the first \<open>n\<close> path components.\<close>

definition stripPath :: "string \<Rightarrow> nat \<Rightarrow> string" where
  "stripPath path n =
     (let parts = splitOn (CHR ''/'') path
      in if length parts \<le> n then '''' else Join (drop n parts))"

text \<open>\<open>containsSubdir\<close>: the path without its root directory is the subdirectory or lies
  under it.\<close>

definition containsSubdir :: "string \<Rightarrow> string \<Rightarrow> bool" where
  "containsSubdir path subdir0 =
     (let subdir = TrimSlashes subdir0;
          parts = splitOn (CHR ''/'') path
      in if length parts < 2 then False
         else let pathAfterRoot = joinWith ''/'' (drop 1 parts)
              in HasPrefix pathAfterRoot (subdir @ ''/'') \<or> pathAfterRoot = subdir)"

definition extractFile :: "world \<Rightarrow> string \<Rightarrow> filedata \<Rightarrow> oserr option \<times> world" where
  "extractFile w destPath body =
     (case MkdirAll w (Dir destPath) of
        (Some e, w') \<Rightarrow> (Some e, w')
      | (None, w') \<Rightarrow> WriteFile w' destPath body)"

text \<open>The loop over the entries of the archive. The flag \<open>intact\<close> tells whether the
  stream ends properly after the entries or \<open>tarReader.Next\<close> fails there.\<close>

fun extractEntries ::
  "(Header \<times> filedata) list \<Rightarrow> bool \<Rightarrow> string \<Rightarrow> ExtractOptions \<Rightarrow> nat \<Rightarrow> world
     \<Rightarrow> error option \<times> world" where
  "extractEntries [] intact destDir opts stripLevel w =
     (if intact then (None, w) else (Some ReadTarEntryFailed, w))"
| "extractEntries ((header, body) # rest) intact destDir opts stripLevel w =
     (if Subdir_x opts \<noteq> '''' \<and> \<not> containsSubdir (Name_h header) (TrimSlashes (Subdir_x opts))
      then extractEntries rest intact destDir opts stripLevel w
      else
        let name = stripPath (Name_h header) stripLevel in
        if name = '''' then extractEntries rest intact destDir opts stripLevel w
        else
          let destPath = Join [destDir, name] in
          if \<not> HasPrefix (Clean destPath) (Clean destDir)
          then (Some (PathTraversal (Name_h header)), w)
          else (case Typeflag header of
            TypeDir \<Rightarrow>
              (case MkdirAll w destPath of
                 (Some e, w') \<Rightarrow> (Some (CreateDirectoryFailed e), w')
               | (None, w') \<Rightarrow> extractEntries rest intact destDir opts stripLevel w')
          | TypeReg \<Rightarrow>
              (case extractFile w destPath body of
                 (Some e, w') \<Rightarrow> (Some (ExtractFileFailed e), w')
               | (None, w') \<Rightarrow> extractEntries rest intact destDir opts stripLevel w')
          | TypeSymlink \<Rightarrow>
              (let linkTarget = Linkname header in
               if IsAbs linkTarget then extractEntries rest intact destDir opts stripLevel w
               else
                 let targetPath = Join [Dir destPath, linkTarget] in
                 if \<not> HasPrefix (Clean targetPath) (Clean destDir)
                 then extractEntries rest intact destDir opts stripLevel w
                 else (case Symlink w linkTarget destPath of
                    (Some e, w') \<Rightarrow> extractEntries rest intact destDir opts stripLevel w'
                  | (None, w') \<Rightarrow> extractEntries rest intact destDir opts stripLevel w'))
          | TypeOther \<Rightarrow> extractEntries rest intact destDir opts stripLevel w))"

definition ExtractTarball :: "string \<Rightarrow> string \<Rightarrow> ExtractOptions \<Rightarrow> world \<Rightarrow> error option \<times> world"
  where
  "ExtractTarball tarballPath destDir opts w =
     (case ReadFile w tarballPath of
        Inl e \<Rightarrow> (if e = EISDIR then (Some GzipReaderFailed, w) else (Some (OpenTarballFailed e), w))
      | Inr (TarGz entries intact) \<Rightarrow>
          (let stripLevel0 = (if StripComponents opts = 0 then 1 else StripComponents opts);
               stripLevel =
                 (if Subdir_x opts \<noteq> ''''
                  then stripLevel0 + (CountSlashes (TrimSlashes (Subdir_x opts)) + 1)
                  else stripLevel0)
           in case MkdirAll w destDir of
                (Some e, w') \<Rightarrow> (Some (CreateDestinationFailed e), w')
              | (None, w') \<Rightarrow> extractEntries entries intact destDir opts stripLevel w')
      | Inr d \<Rightarrow> (Some GzipReaderFailed, w))"

section \<open>Actions of the manifest\<close>

text \<open>\<open>hasPrefix\<close> of \<open>actions.go\<close>: the path is the prefix or lies under it.\<close>

definition hasPrefix :: "string \<Rightarrow> string \<Rightarrow> bool" where
  "hasPrefix path0 prefix0 =
     (let path = Clean path0; pre = Clean prefix0
      in path = pre \<or>
         length path > length pre \<and> path ! length pre = CHR ''/'' \<and> take (length pre) path = pre)"

fun removeFiles :: "string list \<Rightarrow> string \<Rightarrow> world \<Rightarrow> error option \<times> world" where
  "removeFiles [] destDir w = (None, w)"
| "removeFiles (file # rest) destDir w =
     (let filePath = Join [destDir, file];
          cleanPath = Clean filePath
      in if \<not> hasPrefix cleanPath (Clean destDir)
         then removeFiles rest destDir (say (Warning (''Skipping path traversal attempt: '' @ file)) w)
         else case Stat w filePath of
           Inl e \<Rightarrow>
             if IsNotExist e
             then removeFiles rest destDir (say (Warning (''File does not exist: '' @ file)) w)
             else (Some (OsError e), w)
         | Inr info \<Rightarrow>
             if info = DirNode then
               (case RemoveAll w filePath of
                  (Some e, w') \<Rightarrow> (Some (RemoveDirectoryFailed file e), w')
                | (None, w') \<Rightarrow>
                    removeFiles rest destDir (say (Info (''Removed directory: '' @ file)) w'))
             else
               (case Remove w filePath of
                  (Some e, w') \<Rightarrow> (Some (RemoveFileFailed file e), w')
                | (None, w') \<Rightarrow>
                    removeFiles rest destDir (say (Info (''Removed file: '' @ file)) w')))"

definition executeRemoveAction :: "Action \<Rightarrow> string \<Rightarrow> world \<Rightarrow> error option \<times> world" where
  "executeRemoveAction action destDir w =
     (if length (Files action) = 0 then (None, w) else removeFiles (Files action) destDir w)"

section \<open>The reference cache\<close>

text \<open>A Go map from strings to strings is a list of pairs with distinct keys; indexing
  it at an absent key gives the empty string. Decoding a JSON object stores its pairs in
  order, a later pair replacing an earlier one of the same key.\<close>

definition mapGet :: "RefMap \<Rightarrow> string \<Rightarrow> string" where
  "mapGet m k = (case map_of m k of Some v \<Rightarrow> v | None \<Rightarrow> '''')"

definition decodeObject :: "(string \<times> string) list \<Rightarrow> RefMap" where
  "decodeObject kvs = fold (\<lambda>(k, v) m. AList.update k v m) kvs []"

definition loadObject :: "string \<Rightarrow> world \<Rightarrow> error + RefMap" where
  "loadObject path w =
     (case ReadFile w path of
        Inl e \<Rightarrow> if IsNotExist e then Inr [] else Inl (OsError e)
      | Inr (JsonObject kvs) \<Rightarrow> Inr (decodeObject kvs)
      | Inr d \<Rightarrow> Inl JsonError)"

definition saveObject :: "string \<Rightarrow> string \<Rightarrow> RefMap \<Rightarrow> world \<Rightarrow> error option \<times> world" where
  "saveObject cacheDir path m w =
     (case MkdirAll w cacheDir of
        (Some e, w') \<Rightarrow> (Some (OsError e), w')
      | (None, w') \<Rightarrow>
          (case WriteFile w' path (JsonObject m) of
             (Some e, w'') \<Rightarrow> (Some (OsError e), w'')
           | (None, w'') \<Rightarrow> (None, w'')))"

definition LoadRefMap :: "string \<Rightarrow> world \<Rightarrow> error + RefMap" where
  "LoadRefMap cacheDir w = loadObject (Join [cacheDir, ''map.json'']) w"

definition SaveRefMap :: "string \<Rightarrow> RefMap \<Rightarrow> world \<Rightarrow> error option \<times> world" where
  "SaveRefMap cacheDir refMap w = saveObject cacheDir (Join [cacheDir, ''map.json'']) refMap w"

definition LoadAccessLog :: "string \<Rightarrow> world \<Rightarrow> error + RefMap" where
  "LoadAccessLog cacheDir w = loadObject (Join [cacheDir, ''access.json'']) w"

definition SaveAccessLog :: "string \<Rightarrow> RefMap \<Rightarrow> world \<Rightarrow> error option \<times> world" where
  "SaveAccessLog cacheDir accessLog w =
     saveObject cacheDir (Join [cacheDir, ''access.json'']) accessLog w"

text \<open>The loop of \<open>UpdateCache\<close> that looks for the old hash among the values of the
  reference map.\<close>

fun hashInUse :: "RefMap \<Rightarrow> string \<Rightarrow> bool" where
  "hashInUse [] oldHash = False"
| "hashInUse ((k, h) # rest) oldHash = (if h = oldHash then True else hashInUse rest oldHash)"

definition UpdateCache :: "string \<Rightarrow> string \<Rightarrow> string \<Rightarrow> world \<Rightarrow> error option \<times> world" where
  "UpdateCache cacheDir ref hash w =
     (let refMap = (case LoadRefMap cacheDir w of Inl e \<Rightarrow> [] | Inr m \<Rightarrow> m);
          accessLog = (case LoadAccessLog cacheDir w of Inl e \<Rightarrow> [] | Inr m \<Rightarrow> m)
      in case SaveAccessLog cacheDir (AList.update ref (clock w) accessLog) w of
           (Some e, w1) \<Rightarrow> (Some e, w1)
         | (None, w1) \<Rightarrow>
             if mapGet refMap ref = hash then (None, w1)
             else
               let oldHash = mapGet refMap ref;
                   w2 = (if oldHash \<noteq> '''' then
                           (if \<not> hashInUse refMap oldHash
                            then snd (Remove w1 (Join [cacheDir, oldHash @ ''.tar.gz'']))
                            else w1)
                         else w1)
               in SaveRefMap cacheDir (AList.update ref hash refMap) w2)"

definition GetCachedTarball :: "string \<Rightarrow> string \<Rightarrow> world \<Rightarrow> string" where
  "GetCachedTarball cacheDir hash w =
     (let tarballPath = Join [cacheDir, hash @ ''.tar.gz'']
      in case Stat w tarballPath of Inr info \<Rightarrow> tarballPath | Inl e \<Rightarrow> '''')"

definition GetCachedHash :: "string \<Rightarrow> string \<Rightarrow> world \<Rightarrow> string" where
  "GetCachedHash cacheDir ref w =
     (case LoadRefMap cacheDir w of Inl e \<Rightarrow> '''' | Inr refMap \<Rightarrow> mapGet refMap ref)"

section \<open>Parsing a source\<close>

text \<open>Go's \<open>regexp\<close> is modelled for the constructs the source pattern uses. A match
  returns, in the order of preference of a leftmost-first match (an earlier alternative
  first, a greedy repetition as long as possible first), the rest of the input and the
  captured groups.\<close>

datatype regex =
    Eps
  | Lit char
  | OneOf "char list"
  | NoneOf "char list"
  | AnyChar
  | Seq regex regex
  | Alt regex regex
  | Opt regex
  | Plus regex
  | Group nat regex

type_synonym captures = "(nat \<times> string) list"

function matchRe :: "regex \<Rightarrow> string \<Rightarrow> captures \<Rightarrow> (string \<times> captures) list" where
  "matchRe Eps s c = [(s, c)]"
| "matchRe (Lit a) s c = (case s of [] \<Rightarrow> [] | x # xs \<Rightarrow> if x = a then [(xs, c)] else [])"
| "matchRe (OneOf cs) s c =
     (case s of [] \<Rightarrow> [] | x # xs \<Rightarrow> if x \<in> set cs then [(xs, c)] else [])"
| "matchRe (NoneOf cs) s c =
     (case s of [] \<Rightarrow> [] | x # xs \<Rightarrow> if x \<in> set cs then [] else [(xs, c)])"
| "matchRe AnyChar s c =
     (case s of [] \<Rightarrow> [] | x # xs \<Rightarrow> if x = CHR 0x0A then [] else [(xs, c)])"
| "matchRe (Seq r1 r2) s c = concat (map (\<lambda>(s', c'). matchRe r2 s' c') (matchRe r1 s c))"
| "matchRe (Alt r1 r2) s c = matchRe r1 s c @ matchRe r2 s c"
| "matchRe (Opt r) s c = matchRe r s c @ [(s, c)]"
| "matchRe (Plus r) s c =
     concat (map (\<lambda>(s', c').
                    (if length s' < length s then matchRe (Plus r) s' c' else []) @ [(s', c')])
                 (matchRe r s c))"
| "matchRe (Group n r) s c =
     map (\<lambda>(s', c'). (s', (n, take (length s - length s') s) # c')) (matchRe r s c)"
  by pat_completeness auto
termination
  by (relation "measures [\<lambda>(r, s, c). size r, \<lambda>(r, s, c). length s]") auto

definition capture :: "captures \<Rightarrow> nat \<Rightarrow> string" where
  "capture c n = (case map_of c n of Some v \<Rightarrow> v | None \<Rightarrow> '''')"

text \<open>\<open>FindStringSubmatch\<close> for a pattern anchored at both ends, with seven groups: the
  whole input and the text of each group, empty for a group that took no part.\<close>

definition FindStringSubmatch :: "regex \<Rightarrow> string \<Rightarrow> string list option" where
  "FindStringSubmatch re s =
     (case find (\<lambda>(rest, c). rest = []) (matchRe re s []) of
        None \<Rightarrow> None
      | Some (rest, c) \<Rightarrow> Some (s # map (capture c) [1..<8]))"

fun lits :: "string \<Rightarrow> regex" where
  "lits [] = Eps"
| "lits (c # cs) = Seq (Lit c) (lits cs)"

text \<open>The class \<open>\s\<close>: tab, newline, form feed, carriage return, space.\<close>

definition whitespace :: "char list" where
  "whitespace = [CHR 0x09, CHR 0x0A, CHR 0x0C, CHR 0x0D, CHR '' '']"

text \<open>The pattern \<^verbatim>\<open>^(?:(?:https:\/\/)?([^:/]+\.[^:/]+)\/|git@([^:/]+)[:/]|([^/]+):)?\<close>
  \<^verbatim>\<open>([^/\s]+)\/([^/\s#]+)(?:((?:\/[^/\s#]+)+))?(?:\/)?(?:#(.+))?$\<close>.\<close>

definition sourceRegex :: regex where
  "sourceRegex =
     Seq (Opt (Alt (Seq (Opt (lits ''https://''))
                     (Seq (Group 1 (Seq (Plus (NoneOf '':/''))
                                     (Seq (Lit (CHR ''.'')) (Plus (NoneOf '':/'')))))
                          (Lit (CHR ''/''))))
               (Alt (Seq (lits ''git@'') (Seq (Group 2 (Plus (NoneOf '':/''))) (OneOf '':/'')))
                    (Seq (Group 3 (Plus (NoneOf ''/''))) (Lit (CHR '':''))))))
    (Seq (Group 4 (Plus (NoneOf (CHR ''/'' # whitespace))))
    (Seq (Lit (CHR ''/''))
    (Seq (Group 5 (Plus (NoneOf (CHR ''/'' # CHR ''#'' # whitespace))))
    (Seq (Opt (Group 6 (Plus (Seq (Lit (CHR ''/''))
                                  (Plus (NoneOf (CHR ''/'' # CHR ''#'' # whitespace)))))))
    (Seq (Opt (Lit (CHR ''/'')))
         (Opt (Seq (Lit (CHR ''#'')) (Group 7 (Plus AnyChar)))))))))"

definition supportedHosts :: "string \<Rightarrow> bool" where
  "supportedHosts site = (site \<in> set [''github'', ''gitlab'', ''bitbucket'', ''git.sr.ht''])"

definition getDomain :: "string \<Rightarrow> string" where
  "getDomain site =
     (if site = ''github'' then ''github.com''
      else if site = ''gitlab'' then ''gitlab.com''
      else if site = ''bitbucket'' then ''bitbucket.org''
      else if site = ''git.sr.ht'' then ''git.sr.ht''
      else site @ ''.com'')"

definition ParseSource :: "string \<Rightarrow> error + Source" where
  "ParseSource src =
     (case FindStringSubmatch sourceRegex src of
        None \<Rightarrow> Inl (CouldNotParseSource src)
      | Some match \<Rightarrow>
          let site1 = match ! 1;
              site2 = (if site1 = '''' then match ! 2 else site1);
              site3 = (if site2 = '''' then match ! 3 else site2);
              site4 = (if site3 = '''' then ''github'' else site3);
              site = TrimSuffix (TrimSuffix site4 ''.com'') ''.org''
          in if \<not> supportedHosts site then Inl (UnsupportedHost site)
             else
               let owner = match ! 4;
                   repo = TrimSuffix (match ! 5) ''.git'';
                   subdir = match ! 6;
                   ref = (if match ! 7 = '''' then ''HEAD'' else match ! 7);
                   domain = getDomain site;
                   url = ''https://'' @ domain @ ''/'' @ owner @ ''/'' @ repo;
                   ssh = ''git@'' @ domain @ '':'' @ owner @ ''/'' @ repo
               in Inr \<lparr>Site = site, Owner = owner, Repo = repo, Ref = ref, Subdir = subdir,
                       URL = url, SSH = ssh\<rparr>)"

definition TarballURL :: "Source \<Rightarrow> string \<Rightarrow> string" where
  "TarballURL s hash =
     (if Site s = ''github'' then URL s @ ''/archive/'' @ hash @ ''.tar.gz''
      else if Site s = ''gitlab''
        then URL s @ ''/-/archive/'' @ hash @ ''/'' @ Repo s @ ''-'' @ hash @ ''.tar.gz''
      else if Site s = ''bitbucket'' then URL s @ ''/get/'' @ hash @ ''.tar.gz''
      else if Site s = ''git.sr.ht'' then URL s @ ''/archive/'' @ hash @ ''.tar.gz''
      else URL s @ ''/archive/'' @ hash @ ''.tar.gz'')"

definition APITarballURL :: "Source \<Rightarrow> string \<Rightarrow> string" where
  "APITarballURL s ref =
     (if Site s \<noteq> ''github'' then ''''
      else ''https://api.github.com/repos/'' @ Owner s @ ''/'' @ Repo s @ ''/tarball/'' @ ref)"

section \<open>Reference resolution\<close>

text \<open>\<open>isHex\<close>: every character is a decimal digit or a letter a-f or A-F.\<close>

definition isHexChar :: "char \<Rightarrow> bool" where
  "isHexChar c =
     (let isDigit = (CHR ''0'' \<le> c \<and> c \<le> CHR ''9'');
          isLowerHex = (CHR ''a'' \<le> c \<and> c \<le> CHR ''f'');
          isUpperHex = (CHR ''A'' \<le> c \<and> c \<le> CHR ''F'')
      in \<not> (\<not> isDigit \<and> \<not> isLowerHex \<and> \<not> isUpperHex))"

fun isHex :: "string \<Rightarrow> bool" where
  "isHex [] = True"
| "isHex (c # cs) = (if \<not> isHexChar c then False else isHex cs)"

text \<open>The four loops of \<open>ResolveRef\<close>, each returning the hash of the first reference
  of the list that matches.\<close>

fun findHEAD :: "Ref list \<Rightarrow> string option" where
  "findHEAD [] = None"
| "findHEAD (r # rs) = (if Type r = ''HEAD'' then Some (Hash r) else findHEAD rs)"

fun findBranch :: "Ref list \<Rightarrow> string \<Rightarrow> string option" where
  "findBranch [] refName = None"
| "findBranch (r # rs) refName =
     (if Type r = ''branch'' \<and> Name r = refName then Some (Hash r) else findBranch rs refName)"

fun findTag :: "Ref list \<Rightarrow> string \<Rightarrow> string option" where
  "findTag [] refName = None"
| "findTag (r # rs) refName =
     (if Type r = ''tag'' \<and> Name r = refName then Some (Hash r) else findTag rs refName)"

fun findHashPrefix :: "Ref list \<Rightarrow> string \<Rightarrow> string option" where
  "findHashPrefix [] refName = None"
| "findHashPrefix (r # rs) refName =
     (if HasPrefix (Hash r) refName then Some (Hash r) else findHashPrefix rs refName)"

definition ResolveRef :: "Ref list \<Rightarrow> string \<Rightarrow> error + string" where
  "ResolveRef refs refName =
     (if refName = '''' \<or> refName = ''HEAD'' then
        (case findHEAD refs of Some h \<Rightarrow> Inr h | None \<Rightarrow> Inl NoHead)
      else case findBranch refs refName of Some h \<Rightarrow> Inr h | None \<Rightarrow>
        (case findTag refs refName of Some h \<Rightarrow> Inr h | None \<Rightarrow>
          (case (if length refName \<ge> 8 then findHashPrefix refs refName else None) of
             Some h \<Rightarrow> Inr h
           | None \<Rightarrow>
              if length refName = 40 \<and> isHex refName then Inr refName
              else Inl (UnresolvedRef refName))))"

section \<open>Requests and redirects\<close>

text \<open>An HTTP request as the redirect handlers see it: the host of its URL and its
  headers, one value for each name. \<open>net/http\<close> calls \<open>CheckRedirect\<close> before it follows
  a redirect, with the upcoming request and the requests made so far, the oldest first
  and at least one; an error stops the chain.\<close>

record Request =
  Host :: string
  Header :: "(string \<times> string) list"

definition headerGet :: "(string \<times> string) list \<Rightarrow> string \<Rightarrow> string" where
  "headerGet h k = (case map_of h k of Some v \<Rightarrow> v | None \<Rightarrow> '''')"

definition headerSet :: "string \<Rightarrow> string \<Rightarrow> Request \<Rightarrow> Request" where
  "headerSet k v r = r\<lparr>Header := AList.update k v (Header r)\<rparr>"

definition isGitHubDomain :: "string \<Rightarrow> bool" where
  "isGitHubDomain host =
     (host = ''api.github.com'' \<or> host = ''github.com'' \<or> host = ''codeload.github.com'' \<or>
      host = ''objects.githubusercontent.com'')"

text \<open>The request \<open>downloadGitHubTarball\<close> builds, and its redirect handler; \<open>via\<close> is
  \<open>first # earlier\<close>.\<close>

definition tarballRequest :: "string \<Rightarrow> Request" where
  "tarballRequest tok =
     (let req = headerSet ''X-GitHub-Api-Version'' ''2022-11-28''
                  (headerSet ''User-Agent'' ''ss-plugin-degit''
                    (headerSet ''Accept'' ''application/vnd.github+json''
                      \<lparr>Host = ''api.github.com'', Header = []\<rparr>))
      in if tok \<noteq> '''' then headerSet ''Authorization'' (''Bearer '' @ tok) req else req)"

definition tarballCheckRedirect :: "Request \<Rightarrow> Request \<Rightarrow> Request list \<Rightarrow> error + Request" where
  "tarballCheckRedirect r first earlier =
     (if length (first # earlier) \<ge> 10 then Inl TooManyRedirects
      else
        let r1 = (if isGitHubDomain (Host r) then
                    (let auth = headerGet (Header first) ''Authorization''
                     in if auth \<noteq> '''' then headerSet ''Authorization'' auth r else r)
                  else r)
        in Inr (headerSet ''User-Agent'' ''ss-plugin-degit'' r1))"

text \<open>The request \<open>GitHubRequestWithHeaders\<close> builds for a host, and its redirect
  handler, which copies every header of that request.\<close>

definition apiRequest :: "string \<Rightarrow> (string \<times> string) list \<Rightarrow> string \<Rightarrow> Request" where
  "apiRequest host headers tok =
     (let req0 = headerSet ''User-Agent'' ''ss-plugin-degit''
                   (headerSet ''Accept'' ''application/vnd.github+json''
                     \<lparr>Host = host, Header = []\<rparr>);
          req = fold (\<lambda>(k, v). headerSet k v) headers req0
      in if tok \<noteq> '''' then headerSet ''Authorization'' (''Bearer '' @ tok) req else req)"

definition apiCheckRedirect :: "Request \<Rightarrow> Request \<Rightarrow> Request list \<Rightarrow> error + Request" where
  "apiCheckRedirect req r via = Inr (fold (\<lambda>(k, v). headerSet k v) (Header req) r)"

text \<open>What \<open>net/http\<close> itself puts into a redirected request, before it calls the
  handler (\<open>client.go\<close> of Go 1.24: \<open>Client.do\<close>, \<open>makeHeadersCopier\<close>,
  \<open>shouldCopyHeaderOnRedirect\<close>, \<open>isDomainOrSubdomain\<close>, and \<open>URL.Hostname\<close> of
  \<open>net/url\<close>). The request starts without headers and receives those of the first
  request of the chain; the sensitive ones are left out from the first redirect on
  whose host differs from the host of the first request and is neither its host name
  under another port nor a subdomain of it. Host names that are not ASCII are
  converted by \<open>idna\<close>, a parameter here. The \<open>Referer\<close> header that the library adds
  is left out: neither handler reads it. Releases before 1.24 compare the host with
  that of the previous request and keep no flag; the two agree on the first redirect.\<close>

fun LastIndexByte :: "string \<Rightarrow> char \<Rightarrow> nat option" where
  "LastIndexByte [] c = None"
| "LastIndexByte (x # xs) c =
     (case LastIndexByte xs c of
        Some i \<Rightarrow> Some (Suc i)
      | None \<Rightarrow> if x = c then Some 0 else None)"

definition validOptionalPort :: "string \<Rightarrow> bool" where
  "validOptionalPort port =
     (if port = [] then True
      else if hd port \<noteq> CHR '':'' then False
      else list_all (\<lambda>b. \<not> (b < CHR ''0'' \<or> b > CHR ''9'')) (tl port))"

definition splitHostPort :: "string \<Rightarrow> string \<times> string" where
  "splitHostPort hostPort =
     (let (host, port) =
            (case LastIndexByte hostPort (CHR '':'') of
               Some colon \<Rightarrow>
                 if validOptionalPort (drop colon hostPort)
                 then (take colon hostPort, drop (colon + 1) hostPort)
                 else (hostPort, [])
             | None \<Rightarrow> (hostPort, []))
      in if HasPrefix host ''['' \<and> HasSuffix host '']''
         then (take (length host - 2) (drop 1 host), port)
         else (host, port))"

definition Hostname :: "string \<Rightarrow> string" where
  "Hostname host = fst (splitHostPort host)"

definition isASCII :: "string \<Rightarrow> bool" where
  "isASCII s = list_all (\<lambda>c. (of_char c :: nat) < 128) s"

definition idnaASCII :: "(string \<Rightarrow> string option) \<Rightarrow> string \<Rightarrow> string option" where
  "idnaASCII idna v = (if isASCII v then Some v else idna v)"

definition idnaASCIIFromURL :: "(string \<Rightarrow> string option) \<Rightarrow> string \<Rightarrow> string" where
  "idnaASCIIFromURL idna host =
     (let addr = Hostname host
      in case idnaASCII idna addr of Some v \<Rightarrow> v | None \<Rightarrow> addr)"

text \<open>In the last line the index is within \<open>sub\<close>: \<open>parent\<close> is a suffix of \<open>sub\<close> and not
  the whole of it.\<close>

definition isDomainOrSubdomain :: "string \<Rightarrow> string \<Rightarrow> bool" where
  "isDomainOrSubdomain sub parent =
     (if sub = parent then True
      else if CHR '':'' \<in> set sub \<or> CHR ''%'' \<in> set sub then False
      else if \<not> HasSuffix sub parent then False
      else sub ! (length sub - length parent - 1) = CHR ''.'')"

definition shouldCopyHeaderOnRedirect :: "(string \<Rightarrow> string option) \<Rightarrow> string \<Rightarrow> string \<Rightarrow> bool" where
  "shouldCopyHeaderOnRedirect idna initial dest =
     isDomainOrSubdomain (idnaASCIIFromURL idna dest) (idnaASCIIFromURL idna initial)"

text \<open>The flag \<open>stripSensitiveHeaders\<close> of \<open>Client.do\<close> when the request for \<open>host\<close> is
  prepared: once set at a redirect it stays set. \<open>reqs\<close> are the requests made so far.\<close>

definition stripSensitiveHeaders :: "(string \<Rightarrow> string option) \<Rightarrow> Request list \<Rightarrow> string \<Rightarrow> bool" where
  "stripSensitiveHeaders idna reqs host =
     list_ex (\<lambda>dest. Host (hd reqs) \<noteq> dest \<and> \<not> shouldCopyHeaderOnRedirect idna (Host (hd reqs)) dest)
       (map Host (tl reqs) @ [host])"

text \<open>The headers that the flag keeps back, by their canonical names; the two \<open>Proxy\<close>
  names were added in a patch release. Of the six the program sets \<open>Authorization\<close>
  only.\<close>

definition sensitive :: "string \<Rightarrow> bool" where
  "sensitive k =
     (k = ''Authorization'' \<or> k = ''Www-Authenticate'' \<or> k = ''Cookie'' \<or> k = ''Cookie2'' \<or>
      k = ''Proxy-Authorization'' \<or> k = ''Proxy-Authenticate'')"

definition copyHeaders :: "(string \<Rightarrow> string option) \<Rightarrow> Request list \<Rightarrow> string \<Rightarrow> (string \<times> string) list" where
  "copyHeaders idna reqs host =
     filter (\<lambda>(k, v). \<not> (sensitive k \<and> stripSensitiveHeaders idna reqs host)) (Header (hd reqs))"

text \<open>The redirect loop of \<open>Client.do\<close> for a client with a \<open>CheckRedirect\<close> handler. The
  request is sent; when the server answers with a redirect to a host, the client makes
  the request for that host with the headers \<open>prepare\<close> gives it from the requests made
  so far (\<open>copyHeaders\<close> above is what the library does; the loop is stated for any
  \<open>prepare\<close>) and calls the handler with it and the requests made so far; an error of
  the handler ends the call, otherwise the request the handler leaves is sent in turn.
  The fuel bounds the number of requests; without fuel the call has not ended. The
  result is the error or the final status, and the requests sent, in order.\<close>

datatype reply = Redirect string | Respond nat

fun clientDo ::
  "(Request \<Rightarrow> Request \<Rightarrow> Request list \<Rightarrow> error + Request) \<Rightarrow>
   (Request list \<Rightarrow> string \<Rightarrow> (string \<times> string) list) \<Rightarrow> (Request \<Rightarrow> reply) \<Rightarrow> nat \<Rightarrow>
   Request list \<Rightarrow> Request \<Rightarrow> (error + nat) option \<times> Request list"
  where
  "clientDo check prepare server 0 reqs req = (None, reqs)"
| "clientDo check prepare server (Suc n) reqs req =
     (case server req of
        Respond status \<Rightarrow> (Some (Inr status), reqs @ [req])
      | Redirect host \<Rightarrow>
          (case check \<lparr>Host = host, Header = prepare (reqs @ [req]) host\<rparr>
                  (hd (reqs @ [req])) (tl (reqs @ [req])) of
             Inl e \<Rightarrow> (Some (Inl e), reqs @ [req])
           | Inr nxt \<Rightarrow> clientDo check prepare server n (reqs @ [req]) nxt))"

text \<open>The two clients of the program: the one of \<open>downloadGitHubTarball\<close>, and the one of
  \<open>GitHubRequestWithHeaders\<close>, whose handler holds the original request, the first of
  \<open>via\<close>.\<close>

definition tarballClient ::
  "(Request list \<Rightarrow> string \<Rightarrow> (string \<times> string) list) \<Rightarrow> (Request \<Rightarrow> reply) \<Rightarrow> nat \<Rightarrow> string
     \<Rightarrow> (error + nat) option \<times> Request list" where
  "tarballClient prepare server fuel tok =
     clientDo tarballCheckRedirect prepare server fuel [] (tarballRequest tok)"

definition apiClient ::
  "(Request list \<Rightarrow> string \<Rightarrow> (string \<times> string) list) \<Rightarrow> (Request \<Rightarrow> reply) \<Rightarrow> nat \<Rightarrow> string
     \<Rightarrow> (string \<times> string) list \<Rightarrow> string \<Rightarrow> (error + nat) option \<times> Request list" where
  "apiClient prepare server fuel host headers tok =
     clientDo (\<lambda>r first earlier. apiCheckRedirect first r (first # earlier)) prepare server fuel []
       (apiRequest host headers tok)"

text \<open>Example servers: one that redirects every request to a host outside GitHub, and
  one that redirects the first request to the given host and answers the next with
  status 200. In the examples no host name needs the conversion.\<close>

definition evil_server :: "Request \<Rightarrow> reply" where
  "evil_server r = Redirect ''evil.example.com''"

definition redirect_once :: "string \<Rightarrow> Request \<Rightarrow> reply" where
  "redirect_once target r = (if Host r = ''api.github.com'' then Redirect target else Respond 200)"

definition no_idna :: "string \<Rightarrow> string option" where
  "no_idna v = None"

text \<open>A predicate for the proofs: every redirected request of the list carries the
  Authorization header of \<open>first\<close> when its host is a GitHub domain and that header is not
  empty, and otherwise the one \<open>prepare\<close> gave it.\<close>

definition asPrepared ::
  "(Request list \<Rightarrow> string \<Rightarrow> (string \<times> string) list) \<Rightarrow> Request \<Rightarrow> Request list \<Rightarrow> bool" where
  "asPrepared prepare first l =
     (\<forall>i. 0 < i \<and> i < length l \<longrightarrow>
        headerGet (Header (l ! i)) ''Authorization'' =
          (if isGitHubDomain (Host (l ! i)) \<and> headerGet (Header first) ''Authorization'' \<noteq> ''''
           then headerGet (Header first) ''Authorization''
           else headerGet (prepare (take i l) (Host (l ! i))) ''Authorization''))"

section \<open>Downloading an archive\<close>

text \<open>What a call of the program comes to: it ends, it returns an error, it panics (an
  index out of range), or the model runs out of the fuel that bounds nested clones.\<close>

datatype outcome = Done | Failed error | Panicked | OutOfFuel

record DownloadOptions =
  Token_d :: string
  Verbose_d :: bool

definition sayIf :: "bool \<Rightarrow> message \<Rightarrow> world \<Rightarrow> world" where
  "sayIf b m w = (if b then say m w else w)"

definition httpGet :: "string \<Rightarrow> string \<Rightarrow> world \<Rightarrow> (nat \<times> filedata) option \<times> world" where
  "httpGet url auth w = (http_get w url auth, w\<lparr>calls := calls w @ [HttpGet url auth]\<rparr>)"

definition saveResponse :: "filedata \<Rightarrow> string \<Rightarrow> world \<Rightarrow> error option \<times> world" where
  "saveResponse body destPath w =
     (case MkdirAll w (Dir destPath) of
        (Some e, w') \<Rightarrow> (Some (SaveDirFailed e), w')
      | (None, w') \<Rightarrow>
          (case WriteFile w' destPath body of
             (Some e, w'') \<Rightarrow> (Some (SaveFileFailed e), w'')
           | (None, w'') \<Rightarrow> (None, w'')))"

definition result :: "error option \<times> world \<Rightarrow> outcome \<times> world" where
  "result r = (case r of (None, w) \<Rightarrow> (Done, w) | (Some e, w) \<Rightarrow> (Failed e, w))"

definition downloadGitHubTarball ::
  "Source \<Rightarrow> string \<Rightarrow> string \<Rightarrow> DownloadOptions \<Rightarrow> world \<Rightarrow> outcome \<times> world" where
  "downloadGitHubTarball src hash destPath opts w =
     (let apiURL = APITarballURL src hash;
          w1 = sayIf (Verbose_d opts) (Info (''Requesting tarball from API: '' @ apiURL)) w;
          tok = token w1
      in if tok \<noteq> '''' \<and> Verbose_d opts \<and> length tok < 20 then (Panicked, w1)
         else
           let w2 = (if tok \<noteq> '''' then
                       sayIf (Verbose_d opts)
                         (Info (''Using GitHub token for authentication (token starts with: ''
                                  @ take 20 tok @ ''...)'')) w1
                     else sayIf (Verbose_d opts)
                         (Warning ''No GitHub token found - private repos will not be accessible'')
                         w1)
           in case httpGet apiURL (if tok \<noteq> '''' then ''Bearer '' @ tok else '''') w2 of
                (None, w3) \<Rightarrow> (Failed RequestFailed, w3)
              | (Some (status, body), w3) \<Rightarrow>
                  let w4 = sayIf (Verbose_d opts) (InfoN ''Response status: '' status) w3
                  in if status = 404 then (Failed NotFound404, w4)
                     else if status = 401 then (Failed Unauthorized401, w4)
                     else if status = 403 then (Failed Forbidden403, w4)
                     else if status \<noteq> 200 then (Failed (DownloadStatus status), w4)
                     else result (saveResponse body destPath w4))"

definition downloadPublic :: "string \<Rightarrow> string \<Rightarrow> world \<Rightarrow> outcome \<times> world" where
  "downloadPublic url destPath w =
     (case httpGet url '''' w of
        (None, w1) \<Rightarrow> (Failed RequestFailed, w1)
      | (Some (status, body), w1) \<Rightarrow>
          if status \<noteq> 200 then (Failed (DownloadStatus status), w1)
          else result (saveResponse body destPath w1))"

definition DownloadTarball ::
  "Source \<Rightarrow> string \<Rightarrow> string \<Rightarrow> DownloadOptions \<Rightarrow> world \<Rightarrow> outcome \<times> world" where
  "DownloadTarball src hash destPath opts w =
     (if Site src = ''github'' then
        (case downloadGitHubTarball src hash destPath opts w of
           (Failed err, w1) \<Rightarrow>
             (let w2 = sayIf (Verbose_d opts) (Info ''Trying direct URL download...'')
                         (sayIf (Verbose_d opts) (WarningE ''API download failed: '' err) w1)
              in case downloadPublic (TarballURL src hash) destPath w2 of
                   (Failed directErr, w3) \<Rightarrow>
                     if Token_d opts \<noteq> '''' then (Failed (ApiAndDirectFailed err directErr), w3)
                     else (Failed directErr, w3)
                 | (r, w3) \<Rightarrow> (r, w3))
         | (r, w1) \<Rightarrow> (r, w1))
      else downloadPublic (TarballURL src hash) destPath w)"

section \<open>More of the file system\<close>

definition Base :: "string \<Rightarrow> string" where
  "Base k = last (splitOn (CHR ''/'') k)"

text \<open>The names in a directory (in the order of the tree; the program only counts them
  or handles each the same way).\<close>

definition ReadDir :: "world \<Rightarrow> string \<Rightarrow> oserr + string list" where
  "ReadDir w p =
     (if fault w OpReadDir (Clean p) then Inl EIO
      else case nodeAt (files w) p of
             None \<Rightarrow> Inl (missing (files w) p)
           | Some DirNode \<Rightarrow>
               Inr (map (\<lambda>(k, v). Base k)
                        (filter (\<lambda>(k, v). k \<noteq> Clean p \<and> Dir k = Clean p) (files w)))
           | Some n \<Rightarrow> Inl ENOTDIR)"

text \<open>\<open>os.Rename\<close> moves a node and everything under it.\<close>

definition Rename :: "world \<Rightarrow> string \<Rightarrow> string \<Rightarrow> oserr option \<times> world" where
  "Rename w old new =
     (let a = Clean old; b = Clean new
      in if fault w OpRename a then (Some EIO, w)
         else case nodeAt (files w) old of
           None \<Rightarrow> (Some (missing (files w) old), w)
         | Some n \<Rightarrow>
             if a = b then (None, w)
             else if nodeAt (files w) (Dir b) \<noteq> Some DirNode then (Some (missing (files w) new), w)
             else if nodeAt (files w) new = Some DirNode then (Some EEXIST, w)
             else (None, w\<lparr>files :=
                     map (\<lambda>(k, v). if k = a \<or> isUnder a k then (b @ drop (length a) k, v) else (k, v))
                         (filter (\<lambda>(k, v). k \<noteq> b) (files w))\<rparr>))"

text \<open>\<open>os.MkdirTemp\<close> with an empty directory argument creates a fresh directory under
  \<open>os.TempDir\<close>.\<close>

definition MkdirTemp :: "world \<Rightarrow> (oserr + string) \<times> world" where
  "MkdirTemp w =
     (let p = Join [tempdir w, fresh_temp w]
      in if fault w OpMkdirTemp p then (Inl EIO, w)
         else if nodeAt (files w) p \<noteq> None then (Inl EEXIST, w)
         else if nodeAt (files w) (Dir p) \<noteq> Some DirNode then (Inl (missing (files w) p), w)
         else (Inr p, w\<lparr>files := files w @ [(p, DirNode)]\<rparr>))"

section \<open>Fetching references\<close>

text \<open>\<open>FetchRefs\<close> runs \<open>git ls-remote\<close> and parses its output; \<open>FetchRefsWithToken\<close> asks
  the GitHub API when a token is there and falls back to \<open>FetchRefs\<close> when the
  repository information cannot be fetched. What the remote answers is the world's.\<close>

definition FetchRefs :: "string \<Rightarrow> world \<Rightarrow> (error + Ref list) \<times> world" where
  "FetchRefs url w =
     (case ls_remote w url of
        None \<Rightarrow> (Inl (FetchRefsFailed url), w\<lparr>calls := calls w @ [LsRemote url]\<rparr>)
      | Some refs \<Rightarrow> (Inr refs, w\<lparr>calls := calls w @ [LsRemote url]\<rparr>))"

definition FetchRefsWithToken :: "Source \<Rightarrow> world \<Rightarrow> (error + Ref list) \<times> world" where
  "FetchRefsWithToken src w =
     (if Site src \<noteq> ''github'' then FetchRefs (URL src) w
      else if token w = '''' then FetchRefs (URL src) w
      else
        let w1 = w\<lparr>calls := calls w @ [ApiRefs (Owner src) (Repo src)]\<rparr>
        in case api_refs w (Owner src) (Repo src) of
             None \<Rightarrow> FetchRefs (URL src) w1
           | Some refs \<Rightarrow> if length refs = 0 then (Inl NoRefsFromApi, w1) else (Inr refs, w1))"

section \<open>Cloning\<close>

definition GetCacheDir :: "world \<Rightarrow> string" where
  "GetCacheDir w =
     (case home w of
        None \<Rightarrow> Join [tempdir w, ''degit-cache'']
      | Some homeDir \<Rightarrow> Join [homeDir, ''.ss'', ''cache'', ''degit''])"

definition GetRepoCacheDir :: "Source \<Rightarrow> world \<Rightarrow> string" where
  "GetRepoCacheDir src w = Join [GetCacheDir w, Site src, Owner src, Repo src]"

text \<open>\<open>cloneWithTar\<close>, first part: the reference is resolved to a hash, in offline mode
  from the cache only.\<close>

definition resolveHash :: "Options \<Rightarrow> Source \<Rightarrow> string \<Rightarrow> world \<Rightarrow> (error + string) \<times> world" where
  "resolveHash opts src cacheDir w =
     (if Cache opts then
        (let hash = GetCachedHash cacheDir (Ref src) w
         in if hash = '''' then (Inl (RefNotInCache (Ref src)), w) else (Inr hash, w))
      else
        (case (if Site src = ''github'' then FetchRefsWithToken src w else FetchRefs (URL src) w) of
           (Inl fetchErr, w1) \<Rightarrow>
             (let hash = GetCachedHash cacheDir (Ref src) w1
              in if hash = '''' then (Inl (NoRefsNoCache fetchErr), w1)
                 else (Inr hash,
                       sayIf (Verbose opts) (Warning ''Could not fetch refs, using cached version'') w1))
         | (Inr refs, w1) \<Rightarrow>
             (case ResolveRef refs (Ref src) of
                Inl err \<Rightarrow> (Inl (CouldNotResolveRef (Ref src) err), w1)
              | Inr hash \<Rightarrow> (Inr hash, w1))))"

text \<open>\<open>cloneWithTar\<close>, last part: the cache is updated (a failure is only printed) and the
  archive extracted.\<close>

definition unpack ::
  "Options \<Rightarrow> Source \<Rightarrow> string \<Rightarrow> string \<Rightarrow> string \<Rightarrow> string \<Rightarrow> world \<Rightarrow> outcome \<times> world" where
  "unpack opts src dest cacheDir hash tarballPath w =
     (let w1 = (case UpdateCache cacheDir (Ref src) hash w of
                  (Some err, w') \<Rightarrow> sayIf (Verbose opts) (WarningE ''Failed to update cache: '' err) w'
                | (None, w') \<Rightarrow> w');
          w2 = sayIf (Verbose opts) (Info (''Extracting to '' @ dest)) w1
      in case ExtractTarball tarballPath dest \<lparr>StripComponents = 1, Subdir_x = Subdir src\<rparr> w2 of
           (Some err, w3) \<Rightarrow> (Failed (ExtractTarballFailed err), w3)
         | (None, w3) \<Rightarrow> (Done, w3))"

text \<open>\<open>cloneWithTar\<close>. The slice \<open>hash[:8]\<close> panics on a hash shorter than 8.\<close>

definition cloneWithTar :: "Options \<Rightarrow> Source \<Rightarrow> string \<Rightarrow> string \<Rightarrow> world \<Rightarrow> outcome \<times> world"
  where
  "cloneWithTar opts src dest cacheDir w =
     (case resolveHash opts src cacheDir w of
        (Inl err, w1) \<Rightarrow> (Failed err, w1)
      | (Inr hash, w1) \<Rightarrow>
          if Verbose opts \<and> length hash < 8 then (Panicked, w1)
          else
            let w2 = sayIf (Verbose opts)
                       (Info (''Resolved '' @ Ref src @ '' to '' @ take 8 hash)) w1;
                cached = GetCachedTarball cacheDir hash w2
            in if cached = '''' then
                 (if Cache opts then
                    (if length hash < 8 then (Panicked, w2)
                     else (Failed (TarballNotInCache (take 8 hash)), w2))
                  else
                    let tarballPath = Join [cacheDir, hash @ ''.tar.gz''];
                        w3 = sayIf (Verbose opts)
                               (Info (''Downloading '' @ TarballURL src hash)) w2
                    in case DownloadTarball src hash tarballPath
                              \<lparr>Token_d = Token opts, Verbose_d = Verbose opts\<rparr> w3 of
                         (Done, w4) \<Rightarrow> unpack opts src dest cacheDir hash tarballPath w4
                       | (Failed err, w4) \<Rightarrow> (Failed (DownloadTarballFailed err), w4)
                       | (r, w4) \<Rightarrow> (r, w4))
               else unpack opts src dest cacheDir hash cached
                      (sayIf (Verbose opts) (Info ''Using cached tarball'') w2))"

text \<open>Running \<open>git\<close> with arguments.\<close>

definition runGit :: "string list \<Rightarrow> world \<Rightarrow> bool \<times> world" where
  "runGit args w =
     (case git w args (files w) of
        (ok, t) \<Rightarrow> (ok, w\<lparr>files := t, calls := calls w @ [RunGit args]\<rparr>))"

definition checkoutRef :: "Source \<Rightarrow> string \<Rightarrow> world \<Rightarrow> world" where
  "checkoutRef src dest w =
     (if Ref src \<noteq> ''HEAD'' \<and> Ref src \<noteq> '''' then
        (case runGit [''-C'', dest, ''checkout'', Ref src] w of
           (True, w1) \<Rightarrow> w1
         | (False, w1) \<Rightarrow>
             (case runGit [''-C'', dest, ''fetch'', ''origin'', Ref src] w1 of
                (True, w2) \<Rightarrow>
                  (case runGit [''-C'', dest, ''checkout'', Ref src] w2 of
                     (True, w3) \<Rightarrow> w3
                   | (False, w3) \<Rightarrow> say (Warning (''Could not checkout ref '' @ Ref src)) w3)
              | (False, w2) \<Rightarrow> w2))
      else w)"

fun moveEach :: "string list \<Rightarrow> string \<Rightarrow> string \<Rightarrow> world \<Rightarrow> oserr option \<times> world" where
  "moveEach [] src dst w = (None, w)"
| "moveEach (name # rest) src dst w =
     (case Rename w (Join [src, name]) (Join [dst, name]) of
        (Some e, w') \<Rightarrow> (Some e, w')
      | (None, w') \<Rightarrow> moveEach rest src dst w')"

fun removeEach :: "string list \<Rightarrow> string \<Rightarrow> world \<Rightarrow> world" where
  "removeEach [] dir w = w"
| "removeEach (name # rest) dir w = removeEach rest dir (snd (RemoveAll w (Join [dir, name])))"

text \<open>The subdirectory of a git clone is moved to a temporary directory, the destination
  cleared, and the content moved back; the temporary directory is removed at the end.\<close>

definition extractSubdir :: "Source \<Rightarrow> string \<Rightarrow> world \<Rightarrow> outcome \<times> world" where
  "extractSubdir src dest w =
     (let subdir = Join [dest, Subdir src]
      in case MkdirTemp w of
           (Inl e, w1) \<Rightarrow> (Failed (TempDirFailed e), w1)
         | (Inr tempDir, w1) \<Rightarrow>
             (case (case ReadDir w1 subdir of
                      Inl e \<Rightarrow> (Failed (SubdirNotFound (Subdir src) e), w1)
                    | Inr entries \<Rightarrow>
                        (case moveEach entries subdir tempDir w1 of
                           (Some e, w2) \<Rightarrow> (Failed (MoveFailed e), w2)
                         | (None, w2) \<Rightarrow>
                             (let w3 = removeEach
                                         (case ReadDir w2 dest of Inl e \<Rightarrow> [] | Inr es \<Rightarrow> es)
                                         dest w2;
                                  back = (case ReadDir w3 tempDir of Inl e \<Rightarrow> [] | Inr es \<Rightarrow> es)
                              in case moveEach back tempDir dest w3 of
                                   (Some e, w4) \<Rightarrow> (Failed (MoveFailed e), w4)
                                 | (None, w4) \<Rightarrow> (Done, w4)))) of
                (r, w5) \<Rightarrow> (r, snd (RemoveAll w5 tempDir))))"

definition finishGitClone :: "Source \<Rightarrow> string \<Rightarrow> world \<Rightarrow> outcome \<times> world" where
  "finishGitClone src dest w =
     (let w1 = checkoutRef src dest w;
          w2 = (case RemoveAll w1 (Join [dest, ''.git'']) of
                  (Some e, w') \<Rightarrow> say (WarningE ''Failed to remove .git directory: '' (OsError e)) w'
                | (None, w') \<Rightarrow> w')
      in if Subdir src \<noteq> '''' then extractSubdir src dest w2 else (Done, w2))"

definition cloneWithGit :: "Options \<Rightarrow> Source \<Rightarrow> string \<Rightarrow> world \<Rightarrow> outcome \<times> world" where
  "cloneWithGit opts src dest w =
     (if \<not> git_found w then (Failed GitNotFound, w)
      else
        let cloneURL = URL src @ ''.git'';
            w1 = sayIf (Verbose opts) (Info (''Cloning with git (HTTPS): '' @ cloneURL)) w
        in case runGit [''clone'', ''--depth'', ''1'', cloneURL, dest] w1 of
             (True, w2) \<Rightarrow> finishGitClone src dest w2
           | (False, w2) \<Rightarrow>
               (let w3 = sayIf (Verbose opts) (Warning ''HTTPS clone failed, trying SSH...'') w2;
                    w4 = snd (RemoveAll w3 dest)
                in case runGit [''clone'', ''--depth'', ''1'', SSH src, dest] w4 of
                     (False, w5) \<Rightarrow> (Failed GitCloneFailed, w5)
                   | (True, w5) \<Rightarrow> finishGitClone src dest w5))"

definition checkDestEmpty :: "string \<Rightarrow> world \<Rightarrow> error option" where
  "checkDestEmpty dest w =
     (case ReadDir w dest of
        Inl e \<Rightarrow> if IsNotExist e then None else Some (OsError e)
      | Inr entries \<Rightarrow> if length entries > 0 then Some (DestinationNotEmpty dest) else None)"

text \<open>The part of \<open>Clone\<close> that clones by mode: git mode, or tar mode with the fall-back
  to git when it fails.\<close>

definition cloneByMode :: "Options \<Rightarrow> Source \<Rightarrow> string \<Rightarrow> string \<Rightarrow> world \<Rightarrow> outcome \<times> world"
  where
  "cloneByMode opts src dest cacheDir w =
     (if Mode opts = ''git'' then cloneWithGit opts src dest w
      else case cloneWithTar opts src dest cacheDir w of
             (Failed err, w1) \<Rightarrow>
               (let w2 = sayIf (Verbose opts) (Info ''Falling back to git clone mode...'')
                           (sayIf (Verbose opts) (WarningE ''Tarball download failed: '' err) w1);
                    w3 = snd (RemoveAll w2 dest)
                in case cloneWithGit opts src dest w3 of
                     (Failed gitErr, w4) \<Rightarrow> (Failed (TarAndGitFailed err gitErr), w4)
                   | (r, w4) \<Rightarrow> (r, w4))
           | (r, w1) \<Rightarrow> (r, w1))"

section \<open>Running the manifest\<close>

definition LoadActions :: "string \<Rightarrow> world \<Rightarrow> (error + Action list) \<times> world" where
  "LoadActions destDir w =
     (let actionsPath = Join [destDir, ''degit.json'']
      in case ReadFile w actionsPath of
           Inl e \<Rightarrow> if IsNotExist e then (Inr [], w) else (Inl (OsError e), w)
         | Inr (JsonActions actions) \<Rightarrow> (Inr actions, snd (Remove w actionsPath))
         | Inr d \<Rightarrow> (Inl (ParseManifestFailed JsonError), w))"

definition New :: "Options \<Rightarrow> Options" where
  "New opts = (if Mode opts = '''' then opts\<lparr>Mode := ''tar''\<rparr> else opts)"

type_synonym cloner = "Options \<Rightarrow> Source \<Rightarrow> string \<Rightarrow> world \<Rightarrow> outcome \<times> world"

text \<open>\<open>executeCloneAction\<close>; \<open>nested\<close> is the \<open>Clone\<close> of the nested instance.\<close>

definition executeCloneAction ::
  "cloner \<Rightarrow> Action \<Rightarrow> string \<Rightarrow> Options \<Rightarrow> world \<Rightarrow> outcome \<times> world" where
  "executeCloneAction nested action destDir opts w =
     (if Src action = '''' then (Failed CloneRequiresSrc, w)
      else
        let w1 = say (Info (''Cloning additional source: '' @ Src action)) w
        in case ParseSource (Src action) of
             Inl err \<Rightarrow> (Failed err, w1)
           | Inr src \<Rightarrow>
               nested (New \<lparr>Force = True, Cache = Cache_a action, Mode = Mode opts,
                            Verbose = Verbose_a action, Token = Token opts\<rparr>) src destDir w1)"

fun runActions ::
  "cloner \<Rightarrow> nat \<Rightarrow> Action list \<Rightarrow> string \<Rightarrow> Options \<Rightarrow> world \<Rightarrow> outcome \<times> world" where
  "runActions nested i [] destDir opts w = (Done, w)"
| "runActions nested i (action # rest) destDir opts w =
     (if Action action = ''clone'' then
        (case executeCloneAction nested action destDir opts w of
           (Done, w') \<Rightarrow> runActions nested (i + 1) rest destDir opts w'
         | (Failed err, w') \<Rightarrow> (Failed (ActionFailed i ''clone'' err), w')
         | (r, w') \<Rightarrow> (r, w'))
      else if Action action = ''remove'' then
        (case executeRemoveAction action destDir w of
           (None, w') \<Rightarrow> runActions nested (i + 1) rest destDir opts w'
         | (Some err, w') \<Rightarrow> (Failed (ActionFailed i ''remove'' err), w'))
      else runActions nested (i + 1) rest destDir opts
             (say (Warning (''Unknown action: '' @ Action action)) w))"

definition ExecuteActions ::
  "cloner \<Rightarrow> Action list \<Rightarrow> string \<Rightarrow> Options \<Rightarrow> world \<Rightarrow> outcome \<times> world" where
  "ExecuteActions nested actions destDir opts w =
     (if length actions = 0 then (Done, w) else runActions nested 0 actions destDir opts w)"

text \<open>The part of \<open>Clone\<close> after a successful clone: the manifest is loaded and run.\<close>

definition runManifest :: "cloner \<Rightarrow> Options \<Rightarrow> string \<Rightarrow> world \<Rightarrow> outcome \<times> world" where
  "runManifest nested opts dest w =
     (case LoadActions dest w of
        (Inl loadErr, w1) \<Rightarrow> (Done, say (WarningE ''Failed to load degit.json: '' loadErr) w1)
      | (Inr actions, w1) \<Rightarrow>
          if length actions > 0 then
            (let w2 = sayIf (Verbose opts) (InfoN ''Executing actions from degit.json: '' (length actions)) w1
             in case ExecuteActions nested actions dest opts w2 of
                  (Failed execErr, w3) \<Rightarrow> (Failed (ExecuteActionsFailed execErr), w3)
                | (r, w3) \<Rightarrow> (r, w3))
          else (Done, w1))"

text \<open>\<open>Clone\<close>. The fuel bounds the depth of nested clones: a clone action of a manifest
  runs \<open>Clone\<close> again, and a repository whose manifest clones the repository itself
  never ends.\<close>

primrec Clone :: "nat \<Rightarrow> cloner" where
  "Clone 0 = (\<lambda>opts src dest w. (OutOfFuel, w))"
| "Clone (Suc n) = (\<lambda>opts src dest w.
     case (if \<not> Force opts then checkDestEmpty dest w else None) of
       Some err \<Rightarrow> (Failed err, w)
     | None \<Rightarrow>
         (case cloneByMode opts src dest (GetRepoCacheDir src w) w of
            (Done, w1) \<Rightarrow> runManifest (Clone n) opts dest w1
          | (r, w1) \<Rightarrow> (r, w1)))"

section \<open>Example worlds\<close>

text \<open>A machine with the given file tree on which no operation is refused, without git
  and without network.\<close>

definition quiet_world :: "tree \<Rightarrow> world" where
  "quiet_world t =
     \<lparr>files = t, fault = (\<lambda>op p. False), clock = ''2024-01-01T00:00:00Z'', console = [],
      home = Some ''/home/u'', tempdir = ''/tmp'', fresh_temp = ''degit-subdir-1'',
      token = '''', git_found = False, git = (\<lambda>args t. (False, t)),
      ls_remote = (\<lambda>url. None), api_refs = (\<lambda>owner repo. None),
      http_get = (\<lambda>url auth. None), calls = []\<rparr>"

text \<open>The reference list of the worked example: a symbolic head and the branch \<open>main\<close> at
  one commit, the tag \<open>v1\<close> at another.\<close>

definition example_refs :: "Ref list" where
  "example_refs =
     [\<lparr>Type = ''HEAD'', Name = ''HEAD'', Hash = ''aaaa1111''\<rparr>,
      \<lparr>Type = ''branch'', Name = ''main'', Hash = ''aaaa1111''\<rparr>,
      \<lparr>Type = ''tag'', Name = ''v1'', Hash = ''bbbb2222''\<rparr>]"

text \<open>A cache directory in which only \<open>main\<close> points to the commit \<open>h1\<close>, whose archive is
  stored.\<close>

definition stale_cache :: world where
  "stale_cache = quiet_world
     [(''/cache'', DirNode),
      (''/cache/map.json'', FileNode (JsonObject [(''main'', ''h1'')])),
      (''/cache/h1.tar.gz'', FileNode (TarGz [] True))]"

text \<open>An archive with one regular file whose name climbs out of the root folder into a
  sibling of the destination \<open>/tmp/out\<close>, and an archive with one symbolic link whose
  target does.\<close>

definition evil_file_archive :: world where
  "evil_file_archive = quiet_world
     [(''/cache'', DirNode),
      (''/cache/abc.tar.gz'', FileNode (TarGz
         [(\<lparr>Name_h = ''repo-abc/../out-evil/x'', Typeflag = TypeReg, Mode_h = 420,
            Linkname = ''''\<rparr>, Bytes ''pwned'')] True)),
      (''/tmp'', DirNode)]"

definition evil_link_archive :: world where
  "evil_link_archive = quiet_world
     [(''/cache'', DirNode),
      (''/cache/abc.tar.gz'', FileNode (TarGz
         [(\<lparr>Name_h = ''repo-abc/link'', Typeflag = TypeSymlink, Mode_h = 511,
            Linkname = ''../out-evil/secret''\<rparr>, Bytes '''')] True)),
      (''/tmp'', DirNode)]"

text \<open>A destination with two files and a directory, next to a file that is not in it.\<close>

definition populated_dest :: world where
  "populated_dest = quiet_world
     [(''/work'', DirNode),
      (''/work/keep.txt'', FileNode (Bytes ''keep'')),
      (''/work/out'', DirNode),
      (''/work/out/README.md'', FileNode (Bytes ''readme'')),
      (''/work/out/src'', DirNode),
      (''/work/out/src/main.go'', FileNode (Bytes ''package main''))]"

text \<open>The descriptor of \<open>user/repo\<close> on GitHub at its default reference, and at the tag
  \<open>v1.0.0\<close>.\<close>

definition github_user_repo :: Source where
  "github_user_repo =
     \<lparr>Site = ''github'', Owner = ''user'', Repo = ''repo'', Ref = ''HEAD'', Subdir = '''',
      URL = ''https://github.com/user/repo'', SSH = ''git@github.com:user/repo''\<rparr>"


text \<open>Offline mode, as \<open>main.go\<close> sets it for the flag \<open>--offline\<close>.\<close>

definition offline_opts :: Options where
  "offline_opts = \<lparr>Force = False, Cache = True, Mode = ''tar'', Verbose = False, Token = ''''\<rparr>"

text \<open>A machine with an empty cache on which git is installed and \<open>git clone\<close> reaches the
  remote: it creates the target directory with a file in it.\<close>

definition fake_git :: "string list \<Rightarrow> tree \<Rightarrow> bool \<times> tree" where
  "fake_git args t =
     (if take 1 args = [''clone'']
      then (True, t @ [(last args, DirNode),
                       (last args @ ''/README.md'', FileNode (Bytes ''hello''))])
      else (False, t))"

definition empty_cache_with_git :: world where
  "empty_cache_with_git =
     (quiet_world [(''/work'', DirNode)])\<lparr>git_found := True, git := fake_git\<rparr>"





section \<open>Properties of reference resolution\<close>

lemma findHEAD_find:
  "findHEAD rs = map_option Hash (find (\<lambda>r. Type r = ''HEAD'') rs)"
  by (induction rs) simp_all

lemma findBranch_find:
  "findBranch rs n = map_option Hash (find (\<lambda>r. Type r = ''branch'' \<and> Name r = n) rs)"
  by (induction rs) simp_all

lemma findTag_find:
  "findTag rs n = map_option Hash (find (\<lambda>r. Type r = ''tag'' \<and> Name r = n) rs)"
  by (induction rs) simp_all

lemma findHashPrefix_find:
  "findHashPrefix rs n = map_option Hash (find (\<lambda>r. HasPrefix (Hash r) n) rs)"
  by (induction rs) simp_all

text \<open>Claim C4, as amended. On the empty reference list \<open>ResolveRef\<close> fails with the
  no-HEAD error for the empty name and for \<open>HEAD\<close>, and with the unresolved-reference error
  for every other name, except a name of exactly 40 hexadecimal characters, which it
  returns unchanged as the commit identifier.\<close>

theorem ResolveRef_empty:
  "ResolveRef [] n =
     (if n = '''' \<or> n = ''HEAD'' then Inl NoHead
      else if length n = 40 \<and> isHex n then Inr n
      else Inl (UnresolvedRef n))"
  by (simp add: ResolveRef_def)

text \<open>Claim C4 as stated fails: with no reference at all, a 40-character hexadecimal
  name is returned as a commit identifier.\<close>

theorem ResolveRef_empty_counterexample:
  "ResolveRef [] ''0123456789abcdef0123456789abcdef01234567''
     = Inr ''0123456789abcdef0123456789abcdef01234567''"
  by (simp add: ResolveRef_def isHexChar_def)

text \<open>Claim C5. On the example list, the empty name and \<open>HEAD\<close> resolve to the head commit,
  \<open>main\<close> to the branch commit, \<open>v1\<close> to the tag commit, the seven-character \<open>bbbb222\<close>
  fails, and \<open>bbbb2222\<close> resolves by hash prefix. In general the resolution tries, in
  this order, the symbolic head, the first branch of that name, the first tag of that
  name, the first reference whose hash starts with a name of length 8 or more, and a
  40-character hexadecimal name verbatim.\<close>

theorem ResolveRef_example_cascade:
  "ResolveRef example_refs '''' = Inr ''aaaa1111'' \<and>
   ResolveRef example_refs ''HEAD'' = Inr ''aaaa1111'' \<and>
   ResolveRef example_refs ''main'' = Inr ''aaaa1111'' \<and>
   ResolveRef example_refs ''v1'' = Inr ''bbbb2222'' \<and>
   ResolveRef example_refs ''bbbb222'' = Inl (UnresolvedRef ''bbbb222'') \<and>
   ResolveRef example_refs ''bbbb2222'' = Inr ''bbbb2222'' \<and>
   ResolveRef rs n =
     (if n = '''' \<or> n = ''HEAD'' then
        (case find (\<lambda>r. Type r = ''HEAD'') rs of
           Some r \<Rightarrow> Inr (Hash r) | None \<Rightarrow> Inl NoHead)
      else case find (\<lambda>r. Type r = ''branch'' \<and> Name r = n) rs of
        Some r \<Rightarrow> Inr (Hash r)
      | None \<Rightarrow>
         (case find (\<lambda>r. Type r = ''tag'' \<and> Name r = n) rs of
            Some r \<Rightarrow> Inr (Hash r)
          | None \<Rightarrow>
             (case (if 8 \<le> length n then find (\<lambda>r. HasPrefix (Hash r) n) rs else None) of
                Some r \<Rightarrow> Inr (Hash r)
              | None \<Rightarrow>
                 if length n = 40 \<and> isHex n then Inr n else Inl (UnresolvedRef n))))"
proof -
  have ex: "ResolveRef example_refs '''' = Inr ''aaaa1111''"
    "ResolveRef example_refs ''HEAD'' = Inr ''aaaa1111''"
    "ResolveRef example_refs ''main'' = Inr ''aaaa1111''"
    "ResolveRef example_refs ''v1'' = Inr ''bbbb2222''"
    "ResolveRef example_refs ''bbbb222'' = Inl (UnresolvedRef ''bbbb222'')"
    "ResolveRef example_refs ''bbbb2222'' = Inr ''bbbb2222''"
    by (simp_all add: ResolveRef_def example_refs_def HasPrefix_def)
  have order: "ResolveRef rs n =
     (if n = '''' \<or> n = ''HEAD'' then
        (case find (\<lambda>r. Type r = ''HEAD'') rs of
           Some r \<Rightarrow> Inr (Hash r) | None \<Rightarrow> Inl NoHead)
      else case find (\<lambda>r. Type r = ''branch'' \<and> Name r = n) rs of
        Some r \<Rightarrow> Inr (Hash r)
      | None \<Rightarrow>
         (case find (\<lambda>r. Type r = ''tag'' \<and> Name r = n) rs of
            Some r \<Rightarrow> Inr (Hash r)
          | None \<Rightarrow>
             (case (if 8 \<le> length n then find (\<lambda>r. HasPrefix (Hash r) n) rs else None) of
                Some r \<Rightarrow> Inr (Hash r)
              | None \<Rightarrow>
                 if length n = 40 \<and> isHex n then Inr n else Inl (UnresolvedRef n))))"
    by (simp add: ResolveRef_def findHEAD_find findBranch_find findTag_find
          findHashPrefix_find split: option.splits)
  from ex order show ?thesis by blast
qed

section \<open>Properties of the reference cache\<close>

lemma hashInUse_iff: "hashInUse m h = (h \<in> snd ` set m)"
  by (induction m h rule: hashInUse.induct) auto

text \<open>The loop of \<open>UpdateCache\<close> runs over every entry of the map, the entry of the
  reference itself included, so it always finds the old hash.\<close>

lemma hashInUse_own: "mapGet m ref \<noteq> '''' \<Longrightarrow> hashInUse m (mapGet m ref)"
  unfolding hashInUse_iff mapGet_def
  by (auto split: option.splits dest: map_of_SomeD intro: rev_image_eqI)

text \<open>Hence \<open>UpdateCache\<close> never reaches its call of \<open>os.Remove\<close>.\<close>

lemma UpdateCache_removes_nothing:
  "UpdateCache cacheDir ref hash w =
     (let refMap = (case LoadRefMap cacheDir w of Inl e \<Rightarrow> [] | Inr m \<Rightarrow> m);
          accessLog = (case LoadAccessLog cacheDir w of Inl e \<Rightarrow> [] | Inr m \<Rightarrow> m)
      in case SaveAccessLog cacheDir (AList.update ref (clock w) accessLog) w of
           (Some e, w1) \<Rightarrow> (Some e, w1)
         | (None, w1) \<Rightarrow>
             if mapGet refMap ref = hash then (None, w1)
             else SaveRefMap cacheDir (AList.update ref hash refMap) w1)"
  unfolding UpdateCache_def Let_def
  by (auto split: prod.splits option.splits simp: hashInUse_own)

text \<open>Claim C1 fails on the code. In a cache where only \<open>main\<close> maps to \<open>h1\<close>, the call
  \<open>UpdateCache cacheDir main h2\<close> returns without error, stores the new mapping and the
  access time, and leaves the archive of \<open>h1\<close> in place, although no reference maps to
  \<open>h1\<close> any more.\<close>

theorem UpdateCache_keeps_orphaned_archive:
  "GetCachedHash ''/cache'' ''main'' stale_cache = ''h1'' \<and>
   fst (UpdateCache ''/cache'' ''main'' ''h2'' stale_cache) = None \<and>
   files (snd (UpdateCache ''/cache'' ''main'' ''h2'' stale_cache)) =
       [(''/cache'', DirNode),
        (''/cache/map.json'', FileNode (JsonObject [(''main'', ''h2'')])),
        (''/cache/h1.tar.gz'', FileNode (TarGz [] True)),
        (''/cache/access.json'', FileNode (JsonObject [(''main'', ''2024-01-01T00:00:00Z'')]))]"
proof -
  have a: "GetCachedHash ''/cache'' ''main'' stale_cache = ''h1''" by code_simp
  have b: "fst (UpdateCache ''/cache'' ''main'' ''h2'' stale_cache) = None" by code_simp
  have c: "files (snd (UpdateCache ''/cache'' ''main'' ''h2'' stale_cache)) =
       [(''/cache'', DirNode),
        (''/cache/map.json'', FileNode (JsonObject [(''main'', ''h2'')])),
        (''/cache/h1.tar.gz'', FileNode (TarGz [] True)),
        (''/cache/access.json'', FileNode (JsonObject [(''main'', ''2024-01-01T00:00:00Z'')]))]"
    by code_simp
  from a b c show ?thesis by blast
qed

section \<open>Properties of the extraction\<close>

text \<open>A symbolic-link entry that passes the check of its own path never ends the
  extraction, whatever its target and whether or not the link can be created.\<close>

lemma symlink_entry_continues:
  assumes "Typeflag h = TypeSymlink"
    and "Subdir_x opts \<noteq> '''' \<and> \<not> containsSubdir (Name_h h) (TrimSlashes (Subdir_x opts)) \<or>
         stripPath (Name_h h) n = '''' \<or>
         HasPrefix (Clean (Join [destDir, stripPath (Name_h h) n])) (Clean destDir)"
  shows "\<exists>w'. extractEntries ((h, b) # rest) intact destDir opts n w =
              extractEntries rest intact destDir opts n w'"
  using assms by (auto simp: Let_def simp del: Join.simps split: prod.splits option.splits)

text \<open>Claim C6 fails on the code. The entry \<open>repo-abc/../out-evil/x\<close>, extracted to
  \<open>/tmp/out\<close> with one component stripped, has the destination path \<open>/tmp/out-evil/x\<close>,
  which is not within \<open>/tmp/out\<close> (the check \<open>hasPrefix\<close> of the remove action rejects
  it). The extraction compares strings, accepts the path, returns no error and writes
  the file outside the destination.\<close>

theorem ExtractTarball_writes_outside_destination:
  "Join [''/tmp/out'', stripPath ''repo-abc/../out-evil/x'' 1] = ''/tmp/out-evil/x'' \<and>
   hasPrefix ''/tmp/out-evil/x'' ''/tmp/out'' = False \<and>
   fst (ExtractTarball ''/cache/abc.tar.gz'' ''/tmp/out''
          \<lparr>StripComponents = 1, Subdir_x = ''''\<rparr> evil_file_archive) = None \<and>
   drop 3 (files (snd (ExtractTarball ''/cache/abc.tar.gz'' ''/tmp/out''
          \<lparr>StripComponents = 1, Subdir_x = ''''\<rparr> evil_file_archive))) =
     [(''/tmp/out'', DirNode), (''/tmp/out-evil'', DirNode),
      (''/tmp/out-evil/x'', FileNode (Bytes ''pwned''))]"
proof -
  have a: "Join [''/tmp/out'', stripPath ''repo-abc/../out-evil/x'' 1] = ''/tmp/out-evil/x''"
    by code_simp
  have b: "hasPrefix ''/tmp/out-evil/x'' ''/tmp/out'' = False" by code_simp
  have c: "fst (ExtractTarball ''/cache/abc.tar.gz'' ''/tmp/out''
          \<lparr>StripComponents = 1, Subdir_x = ''''\<rparr> evil_file_archive) = None" by code_simp
  have d: "drop 3 (files (snd (ExtractTarball ''/cache/abc.tar.gz'' ''/tmp/out''
          \<lparr>StripComponents = 1, Subdir_x = ''''\<rparr> evil_file_archive))) =
     [(''/tmp/out'', DirNode), (''/tmp/out-evil'', DirNode),
      (''/tmp/out-evil/x'', FileNode (Bytes ''pwned''))]" by code_simp
  from a b c d show ?thesis by blast
qed

text \<open>Claim C7 fails on the code. The symbolic link \<open>repo-abc/link\<close> with the target
  \<open>../out-evil/secret\<close>, extracted to \<open>/tmp/out\<close>, resolves to \<open>/tmp/out-evil/secret\<close>,
  outside the destination. The extraction compares strings, does not skip the entry and
  creates the link.\<close>

theorem ExtractTarball_links_outside_destination:
  "Join [Dir (Join [''/tmp/out'', stripPath ''repo-abc/link'' 1]), ''../out-evil/secret'']
     = ''/tmp/out-evil/secret'' \<and>
   hasPrefix ''/tmp/out-evil/secret'' ''/tmp/out'' = False \<and>
   fst (ExtractTarball ''/cache/abc.tar.gz'' ''/tmp/out''
          \<lparr>StripComponents = 1, Subdir_x = ''''\<rparr> evil_link_archive) = None \<and>
   drop 3 (files (snd (ExtractTarball ''/cache/abc.tar.gz'' ''/tmp/out''
          \<lparr>StripComponents = 1, Subdir_x = ''''\<rparr> evil_link_archive))) =
     [(''/tmp/out'', DirNode), (''/tmp/out/link'', LinkNode ''../out-evil/secret'')]"
proof -
  have a: "Join [Dir (Join [''/tmp/out'', stripPath ''repo-abc/link'' 1]), ''../out-evil/secret'']
     = ''/tmp/out-evil/secret''" by code_simp
  have b: "hasPrefix ''/tmp/out-evil/secret'' ''/tmp/out'' = False" by code_simp
  have c: "fst (ExtractTarball ''/cache/abc.tar.gz'' ''/tmp/out''
          \<lparr>StripComponents = 1, Subdir_x = ''''\<rparr> evil_link_archive) = None" by code_simp
  have d: "drop 3 (files (snd (ExtractTarball ''/cache/abc.tar.gz'' ''/tmp/out''
          \<lparr>StripComponents = 1, Subdir_x = ''''\<rparr> evil_link_archive))) =
     [(''/tmp/out'', DirNode), (''/tmp/out/link'', LinkNode ''../out-evil/secret'')]"
    by code_simp
  from a b c d show ?thesis by blast
qed

section \<open>Properties of paths\<close>

lemma splitOn_not_Nil [simp]: "splitOn sep s \<noteq> []"
  by (induction s) (auto split: list.splits)

lemma splitOn_no_sep: "e \<in> set (splitOn sep s) \<Longrightarrow> sep \<notin> set e"
proof (induction s arbitrary: e)
  case Nil
  then show ?case by simp
next
  case (Cons c s)
  show ?case
  proof (cases "c = sep")
    case True
    with Cons show ?thesis by auto
  next
    case False
    obtain p ps where ps: "splitOn sep s = p # ps"
      by (cases "splitOn sep s") auto
    with Cons.prems False have "e = c # p \<or> e \<in> set ps" by auto
    then show ?thesis
    proof
      assume "e = c # p"
      moreover have "sep \<notin> set p" using Cons.IH[of p] ps by simp
      ultimately show ?thesis using False by auto
    next
      assume "e \<in> set ps"
      then show ?thesis using Cons.IH[of e] ps by simp
    qed
  qed
qed

lemma splitOn_snoc_sep: "splitOn sep (a @ sep # b) = splitOn sep a @ splitOn sep b"
  by (induction a) (auto split: list.splits)

lemma splitOn_no_sep_id: "sep \<notin> set s \<Longrightarrow> splitOn sep s = [s]"
  by (induction s) auto

lemma splitOn_joinWith:
  "es \<noteq> [] \<Longrightarrow> \<forall>e\<in>set es. sep \<notin> set e \<Longrightarrow> splitOn sep (joinWith [sep] es) = es"
proof (induction es rule: induct_list012)
  case 1
  then show ?case by simp
next
  case (2 x)
  then show ?case by (simp add: splitOn_no_sep_id)
next
  case (3 x y ys)
  have "splitOn sep (joinWith [sep] (x # y # ys)) = splitOn sep (x @ sep # joinWith [sep] (y # ys))"
    by simp
  also have "\<dots> = splitOn sep x @ splitOn sep (joinWith [sep] (y # ys))"
    by (rule splitOn_snoc_sep)
  also have "\<dots> = [x] @ (y # ys)"
    using 3 by (simp add: splitOn_no_sep_id)
  finally show ?case by simp
qed

lemma cleanElems_plain:
  "\<forall>e\<in>set ys. e \<noteq> '''' \<and> e \<noteq> ''.'' \<and> e \<noteq> ''..'' \<Longrightarrow> cleanElems r out ys = rev out @ ys"
  by (induction ys arbitrary: out) auto

lemma cleanElems_dotdots:
  "\<not> r \<Longrightarrow> cleanElems r (replicate j ''..'') (replicate k ''..'' @ ys) =
           cleanElems r (replicate (j + k) ''..'') ys"
proof (induction k arbitrary: j)
  case 0
  then show ?case by simp
next
  case (Suc k)
  have "cleanElems r (replicate j ''..'') (''..'' # replicate k ''..'' @ ys) =
        cleanElems r (replicate (Suc j) ''..'') (replicate k ''..'' @ ys)"
    using Suc.prems by (cases j) auto
  then show ?case using Suc.IH[OF Suc.prems, of "Suc j"] by simp
qed

lemma cleanElems_normal:
  assumes "normalElems r es"
  shows "cleanElems r [] es = es"
proof -
  from assms obtain k ys where es: "es = replicate k ''..'' @ ys" and k: "r \<longrightarrow> k = 0"
    and ys: "\<forall>e\<in>set ys. e \<noteq> '''' \<and> e \<noteq> ''.'' \<and> e \<noteq> ''..'' \<and> CHR ''/'' \<notin> set e"
    unfolding normalElems_def by blast
  have plain: "\<forall>e\<in>set ys. e \<noteq> '''' \<and> e \<noteq> ''.'' \<and> e \<noteq> ''..''" using ys by blast
  show ?thesis
  proof (cases r)
    case True
    with k es show ?thesis using cleanElems_plain[OF plain, of r "[]"] by simp
  next
    case False
    have "cleanElems r [] es = cleanElems r (replicate 0 ''..'') (replicate k ''..'' @ ys)"
      using es by simp
    also have "\<dots> = cleanElems r (replicate (0 + k) ''..'') ys"
      using False by (rule cleanElems_dotdots)
    also have "\<dots> = replicate k ''..'' @ ys"
      using cleanElems_plain[OF plain, of r "replicate k ''..''"] by simp
    finally show ?thesis using es by simp
  qed
qed

lemma normalElems_rev_stack:
  assumes "out = xs @ replicate k ''..''" and "r \<longrightarrow> k = 0"
    and "\<forall>e\<in>set xs. e \<noteq> '''' \<and> e \<noteq> ''.'' \<and> e \<noteq> ''..'' \<and> CHR ''/'' \<notin> set e"
  shows "normalElems r (rev out)"
proof -
  have "rev out = replicate k ''..'' @ rev xs" using assms(1) by simp
  moreover have "\<forall>e\<in>set (rev xs). e \<noteq> '''' \<and> e \<noteq> ''.'' \<and> e \<noteq> ''..'' \<and> CHR ''/'' \<notin> set e"
    using assms(3) by simp
  ultimately show ?thesis
    unfolding normalElems_def using assms(2) by blast
qed

lemma cleanElems_gives_normal:
  assumes "out = xs @ replicate k ''..''" and "r \<longrightarrow> k = 0"
    and "\<forall>e\<in>set xs. e \<noteq> '''' \<and> e \<noteq> ''.'' \<and> e \<noteq> ''..'' \<and> CHR ''/'' \<notin> set e"
    and "\<forall>e\<in>set es. CHR ''/'' \<notin> set e"
  shows "normalElems r (cleanElems r out es)"
  using assms
proof (induction es arbitrary: out xs k)
  case Nil
  have "normalElems r (rev out)"
    using Nil.prems(1,2,3) by (rule normalElems_rev_stack)
  then show ?case by simp
next
  case (Cons e es)
  have rest: "\<forall>e\<in>set es. CHR ''/'' \<notin> set e" using Cons.prems(4) by simp
  have e: "CHR ''/'' \<notin> set e" using Cons.prems(4) by simp
  consider (skip) "e = '''' \<or> e = ''.''" | (up) "e = ''..''"
    | (real) "e \<noteq> '''' \<and> e \<noteq> ''.'' \<and> e \<noteq> ''..''"
    by blast
  then show ?case
  proof cases
    case skip
    have "cleanElems r out (e # es) = cleanElems r out es" using skip by auto
    moreover have "normalElems r (cleanElems r out es)"
      using Cons.prems(1,2,3) rest by (rule Cons.IH)
    ultimately show ?thesis by simp
  next
    case up
    show ?thesis
    proof (cases xs)
      case Nil
      then have o: "out = replicate k ''..''" using Cons.prems(1) by simp
      show ?thesis
      proof (cases r)
        case True
        then have k0: "k = 0" using Cons.prems(2) by simp
        have "cleanElems r out (e # es) = cleanElems r [] es"
          using up True o k0 by simp
        moreover have "normalElems r (cleanElems r [] es)"
        proof (rule Cons.IH[of "[]" "[]" 0])
          show "[] = [] @ replicate 0 ''..''" by simp
          show "r \<longrightarrow> 0 = (0::nat)" by simp
          show "\<forall>e\<in>set []. e \<noteq> '''' \<and> e \<noteq> ''.'' \<and> e \<noteq> ''..'' \<and> CHR ''/'' \<notin> set e" by simp
          show "\<forall>e\<in>set es. CHR ''/'' \<notin> set e" by (rule rest)
        qed
        ultimately show ?thesis by simp
      next
        case False
        have "cleanElems r out (e # es) = cleanElems r (replicate (Suc k) ''..'') es"
          using up False o by (cases k) auto
        moreover have "normalElems r (cleanElems r (replicate (Suc k) ''..'') es)"
        proof (rule Cons.IH[of "replicate (Suc k) ''..''" "[]" "Suc k"])
          show "replicate (Suc k) ''..'' = [] @ replicate (Suc k) ''..''" by simp
          show "r \<longrightarrow> Suc k = 0" using False by simp
          show "\<forall>e\<in>set []. e \<noteq> '''' \<and> e \<noteq> ''.'' \<and> e \<noteq> ''..'' \<and> CHR ''/'' \<notin> set e" by simp
          show "\<forall>e\<in>set es. CHR ''/'' \<notin> set e" by (rule rest)
        qed
        ultimately show ?thesis by simp
      qed
    next
      case (Cons x xs')
      have o: "out = x # (xs' @ replicate k ''..'')" using Cons.prems(1) Cons by simp
      have x: "x \<noteq> ''..''" using Cons.prems(3) Cons by simp
      have "cleanElems r out (e # es) = cleanElems r (xs' @ replicate k ''..'') es"
        using up o x by simp
      moreover have "normalElems r (cleanElems r (xs' @ replicate k ''..'') es)"
      proof (rule Cons.IH[of "xs' @ replicate k ''..''" xs' k])
        show "xs' @ replicate k ''..'' = xs' @ replicate k ''..''" by simp
        show "r \<longrightarrow> k = 0" by (rule Cons.prems(2))
        show "\<forall>e\<in>set xs'. e \<noteq> '''' \<and> e \<noteq> ''.'' \<and> e \<noteq> ''..'' \<and> CHR ''/'' \<notin> set e"
          using Cons.prems(3) Cons by simp
        show "\<forall>e\<in>set es. CHR ''/'' \<notin> set e" by (rule rest)
      qed
      ultimately show ?thesis by simp
    qed
  next
    case real
    have "cleanElems r out (e # es) = cleanElems r (e # out) es" using real by simp
    moreover have "normalElems r (cleanElems r (e # out) es)"
    proof (rule Cons.IH[of "e # out" "e # xs" k])
      show "e # out = (e # xs) @ replicate k ''..''" using Cons.prems(1) by simp
      show "r \<longrightarrow> k = 0" by (rule Cons.prems(2))
      show "\<forall>e\<in>set (e # xs). e \<noteq> '''' \<and> e \<noteq> ''.'' \<and> e \<noteq> ''..'' \<and> CHR ''/'' \<notin> set e"
        using Cons.prems(3) real e by simp
      show "\<forall>e\<in>set es. CHR ''/'' \<notin> set e" by (rule rest)
    qed
    ultimately show ?thesis by simp
  qed
qed

lemma cleanElems_split_normal:
  "normalElems r (cleanElems r [] (splitOn (CHR ''/'') p))"
proof (rule cleanElems_gives_normal[of "[]" "[]" 0])
  show "[] = [] @ replicate 0 ''..''" by simp
  show "r \<longrightarrow> 0 = (0::nat)" by simp
  show "\<forall>e\<in>set []. e \<noteq> '''' \<and> e \<noteq> ''.'' \<and> e \<noteq> ''..'' \<and> CHR ''/'' \<notin> set e" by simp
  show "\<forall>e\<in>set (splitOn (CHR ''/'') p). CHR ''/'' \<notin> set e"
    using splitOn_no_sep by blast
qed

lemma joinWith_Cons_hd:
  "x \<noteq> [] \<Longrightarrow> joinWith sep (x # xs) \<noteq> [] \<and> hd (joinWith sep (x # xs)) = hd x"
  by (cases xs) auto

lemma Clean_pathOf_normal:
  assumes n: "normalElems r es"
  shows "Clean (pathOf r es) = pathOf r es"
proof -
  from n obtain k ys where es: "es = replicate k ''..'' @ ys" and k: "r \<longrightarrow> k = 0"
    and ys: "\<forall>e\<in>set ys. e \<noteq> '''' \<and> e \<noteq> ''.'' \<and> e \<noteq> ''..'' \<and> CHR ''/'' \<notin> set e"
    unfolding normalElems_def by blast
  have noslash: "\<forall>e\<in>set es. CHR ''/'' \<notin> set e"
  proof
    fix e assume "e \<in> set es"
    then have "e \<in> set (replicate k ''..'') \<or> e \<in> set ys" unfolding es by simp
    then have "e = ''..'' \<or> e \<in> set ys" by auto
    then show "CHR ''/'' \<notin> set e"
    proof
      assume "e = ''..''"
      then show ?thesis by simp
    next
      assume "e \<in> set ys"
      then show ?thesis using ys by blast
    qed
  qed
  have stable: "cleanElems r [] es = es" using n by (rule cleanElems_normal)
  show ?thesis
  proof (cases "es = []")
    case True
    then show ?thesis by (cases r) (simp_all add: Clean_def pathOf_def)
  next
    case False
    then obtain x xs where xs: "es = x # xs" by (cases es) auto
    have x: "x \<noteq> [] \<and> hd x \<noteq> CHR ''/''"
    proof (cases k)
      case 0
      then have "ys = x # xs" using es xs by simp
      then have "x \<in> set ys" by simp
      then have "x \<noteq> [] \<and> CHR ''/'' \<notin> set x" using ys by blast
      then show ?thesis by (cases x) auto
    next
      case (Suc j)
      then have "x = ''..''" using es xs by simp
      then show ?thesis by simp
    qed
    have split: "splitOn (CHR ''/'') (joinWith ''/'' es) = es"
      using splitOn_joinWith[OF False noslash] by simp
    show ?thesis
    proof (cases r)
      case True
      have "Clean (CHR ''/'' # joinWith ''/'' es) =
              pathOf True (cleanElems True [] (splitOn (CHR ''/'') (CHR ''/'' # joinWith ''/'' es)))"
        by (simp add: Clean_def)
      also have "splitOn (CHR ''/'') (CHR ''/'' # joinWith ''/'' es) = [] # es"
        using split by simp
      also have "cleanElems True [] ([] # es) = es" using stable True by simp
      finally show ?thesis using True by (simp add: pathOf_def)
    next
      case False
      have j: "joinWith ''/'' es \<noteq> [] \<and> hd (joinWith ''/'' es) = hd x"
        using joinWith_Cons_hd[of x "''/''" xs] x xs by simp
      have "Clean (joinWith ''/'' es) =
              pathOf False (cleanElems False [] (splitOn (CHR ''/'') (joinWith ''/'' es)))"
        using j x by (simp add: Clean_def)
      also have "\<dots> = pathOf False es" using split stable False by simp
      finally show ?thesis using False \<open>es \<noteq> []\<close> by (simp add: pathOf_def)
    qed
  qed
qed

text \<open>\<open>filepath.Clean\<close> is idempotent.\<close>

lemma Clean_idem: "Clean (Clean p) = Clean p"
proof (cases "p = []")
  case True
  then show ?thesis by (simp add: Clean_def pathOf_def)
next
  case False
  have "Clean p = pathOf (hd p = CHR ''/'') (cleanElems (hd p = CHR ''/'') [] (splitOn (CHR ''/'') p))"
    using False by (simp add: Clean_def Let_def)
  then show ?thesis
    using Clean_pathOf_normal[OF cleanElems_split_normal, of "hd p = CHR ''/''" p] by simp
qed

lemma cleanElems_snoc_skip:
  "e = '''' \<or> e = ''.'' \<Longrightarrow> cleanElems r out (es @ [e]) = cleanElems r out es"
  by (induction es arbitrary: out) (auto split: list.splits)

lemma Clean_trailing:
  assumes "d \<noteq> []" and "e = '''' \<or> e = ''.''"
  shows "Clean (d @ CHR ''/'' # e) = Clean d"
proof -
  have s: "splitOn (CHR ''/'') (d @ CHR ''/'' # e) = splitOn (CHR ''/'') d @ [e]"
    using assms(2) by (auto simp: splitOn_snoc_sep)
  have h: "hd (d @ CHR ''/'' # e) = hd d" using assms(1) by simp
  show ?thesis
    using assms by (simp add: Clean_def s h cleanElems_snoc_skip del: splitOn.simps)
qed

text \<open>Joining \<open>.\<close> or the empty string to a directory gives the directory.\<close>

lemma root_entries:
  "Clean (Join [destDir, ''.'']) = Clean destDir \<and> Clean (Join [destDir, '''']) = Clean destDir"
proof (cases "destDir = []")
  case True
  then show ?thesis by (simp add: Clean_def pathOf_def)
next
  case False
  have "Join [destDir, ''.''] = Clean (destDir @ CHR ''/'' # ''.'')" using False by simp
  then have a: "Join [destDir, ''.''] = Clean destDir"
    using Clean_trailing[OF False, of "''.''"] by simp
  have "Join [destDir, ''''] = Clean (destDir @ CHR ''/'' # '''')" using False by simp
  then have b: "Join [destDir, ''''] = Clean destDir"
    using Clean_trailing[OF False, of "''''"] by simp
  from a b show ?thesis by (simp add: Clean_idem)
qed

section \<open>Properties of the remove action\<close>

lemma nodeAt_cong: "Clean p = Clean q \<Longrightarrow> nodeAt t p = nodeAt t q"
  by (simp add: nodeAt_def)

lemma isUnder_cong: "Clean p = Clean q \<Longrightarrow> isUnder p k = isUnder q k"
  by (simp add: isUnder_def)

text \<open>Claim C10. When the cleaned join of the destination and an entry of \<open>files\<close> is the
  cleaned destination itself, as it is for the entries \<open>.\<close> and the empty string whatever
  the destination, the entry passes \<open>hasPrefix\<close>, and, the destination being a directory
  that the system lets the program inspect and remove, the action removes the
  destination and everything under it, prints that it removed a directory and goes on
  with the remaining entries; no warning is printed for the entry.\<close>

theorem remove_action_root_entry:
  assumes root: "file = ''.'' \<or> file = '''' \<or> Clean (Join [destDir, file]) = Clean destDir"
    and dir: "nodeAt (files w) destDir = Some DirNode"
    and stat: "\<not> fault w OpStat (Clean destDir)"
    and rm: "\<not> fault w OpRemoveAll (Clean destDir)"
    and fs: "Files action = file # rest"
  shows "Clean (Join [destDir, file]) = Clean destDir \<and>
         hasPrefix (Clean (Join [destDir, file])) (Clean destDir) \<and>
         executeRemoveAction action destDir w =
           removeFiles rest destDir
             (say (Info (''Removed directory: '' @ file))
               (w\<lparr>files := filter (\<lambda>(k, v). k \<noteq> Clean destDir \<and> \<not> isUnder destDir k) (files w)\<rparr>))"
proof -
  let ?fp = "Join [destDir, file]"
  have same: "Clean ?fp = Clean destDir"
    using root root_entries[of destDir] by blast
  have hp: "hasPrefix (Clean ?fp) (Clean destDir)"
    using same by (simp add: hasPrefix_def)
  have st: "Stat w ?fp = Inr DirNode"
    using same dir stat nodeAt_cong[OF same, of "files w"] by (simp add: Stat_def)
  have ra: "RemoveAll w ?fp =
      (None, w\<lparr>files := filter (\<lambda>(k, v). k \<noteq> Clean destDir \<and> \<not> isUnder destDir k) (files w)\<rparr>)"
    using same rm isUnder_cong[OF same] by (simp add: RemoveAll_def)
  have "executeRemoveAction action destDir w = removeFiles (file # rest) destDir w"
    using fs by (simp add: executeRemoveAction_def)
  also have "\<dots> = removeFiles rest destDir
             (say (Info (''Removed directory: '' @ file))
               (w\<lparr>files := filter (\<lambda>(k, v). k \<noteq> Clean destDir \<and> \<not> isUnder destDir k) (files w)\<rparr>))"
    using hp st ra by (simp del: Join.simps)
  finally show ?thesis using hp same by blast
qed

text \<open>The entries \<open>.\<close> and the empty string on a populated destination \<open>/work/out\<close>: each
  empties the destination and leaves what is beside it.\<close>

theorem remove_action_root_entry_witness:
  "nodeAt (files populated_dest) ''/work/out'' = Some DirNode \<and>
   Clean (Join [''/work/out'', ''.'']) = Clean ''/work/out'' \<and>
   fst (executeRemoveAction
          \<lparr>Action = ''remove'', Src = '''', Files = [''.''], Cache_a = False, Verbose_a = False\<rparr>
          ''/work/out'' populated_dest) = None \<and>
   files (snd (executeRemoveAction
          \<lparr>Action = ''remove'', Src = '''', Files = [''.''], Cache_a = False, Verbose_a = False\<rparr>
          ''/work/out'' populated_dest)) =
     [(''/work'', DirNode), (''/work/keep.txt'', FileNode (Bytes ''keep''))] \<and>
   console (snd (executeRemoveAction
          \<lparr>Action = ''remove'', Src = '''', Files = [''''], Cache_a = False, Verbose_a = False\<rparr>
          ''/work/out'' populated_dest)) = [Info ''Removed directory: ''] \<and>
   files (snd (executeRemoveAction
          \<lparr>Action = ''remove'', Src = '''', Files = [''''], Cache_a = False, Verbose_a = False\<rparr>
          ''/work/out'' populated_dest)) =
     [(''/work'', DirNode), (''/work/keep.txt'', FileNode (Bytes ''keep''))]"
proof -
  let ?dot = "\<lparr>Action = ''remove'', Src = '''', Files = [''.''], Cache_a = False, Verbose_a = False\<rparr>"
  let ?emp = "\<lparr>Action = ''remove'', Src = '''', Files = [''''], Cache_a = False, Verbose_a = False\<rparr>"
  have d: "nodeAt (files populated_dest) ''/work/out'' = Some DirNode" by code_simp
  have f1: "\<not> fault populated_dest OpStat (Clean ''/work/out'')"
    and f2: "\<not> fault populated_dest OpRemoveAll (Clean ''/work/out'')"
    by (simp_all add: populated_dest_def quiet_world_def)
  have left: "filter (\<lambda>(k, v). k \<noteq> Clean ''/work/out'' \<and> \<not> isUnder ''/work/out'' k)
                (files populated_dest) =
              [(''/work'', DirNode), (''/work/keep.txt'', FileNode (Bytes ''keep''))]"
    by code_simp
  have r1: "Clean (Join [''/work/out'', ''.'']) = Clean ''/work/out'' \<and>
      executeRemoveAction ?dot ''/work/out'' populated_dest =
      (None, say (Info (''Removed directory: '' @ ''.''))
         (populated_dest\<lparr>files := [(''/work'', DirNode), (''/work/keep.txt'', FileNode (Bytes ''keep''))]\<rparr>))"
    using remove_action_root_entry[of "''.''" "''/work/out''" populated_dest ?dot "[]", OF _ d f1 f2]
      left by simp
  have r2: "executeRemoveAction ?emp ''/work/out'' populated_dest =
      (None, say (Info (''Removed directory: '' @ ''''))
         (populated_dest\<lparr>files := [(''/work'', DirNode), (''/work/keep.txt'', FileNode (Bytes ''keep''))]\<rparr>))"
    using remove_action_root_entry[of "''''" "''/work/out''" populated_dest ?emp "[]", OF _ d f1 f2]
      left by simp
  have c2: "console populated_dest = []" by (simp add: populated_dest_def quiet_world_def)
  show ?thesis using d r1 r2 c2 by (simp add: say_def)
qed

section \<open>Properties of source parsing\<close>

lemma HasSuffix_iff: "HasSuffix s p = (\<exists>u. s = u @ p)"
proof
  assume "HasSuffix s p"
  then have "s = take (length s - length p) s @ p"
    unfolding HasSuffix_def by (metis append_take_drop_id)
  then show "\<exists>u. s = u @ p" ..
next
  assume "\<exists>u. s = u @ p"
  then show "HasSuffix s p" by (auto simp: HasSuffix_def)
qed

text \<open>\<open>TrimSuffix\<close> removes one occurrence: what it returns still ends with the suffix
  only when the string ended with the suffix twice.\<close>

lemma TrimSuffix_twice:
  assumes "HasSuffix (TrimSuffix s p) p" and "p \<noteq> []"
  shows "HasSuffix s (p @ p)"
proof (cases "HasSuffix s p")
  case True
  then obtain u where u: "s = u @ p" by (auto simp: HasSuffix_iff)
  then have "TrimSuffix s p = u" using True by (simp add: TrimSuffix_def)
  with assms obtain v where "u = v @ p" by (auto simp: HasSuffix_iff)
  with u show ?thesis by (auto simp: HasSuffix_iff)
next
  case False
  then have "TrimSuffix s p = s" by (simp add: TrimSuffix_def)
  with assms False show ?thesis by simp
qed

lemma ParseSource_Repo:
  assumes "ParseSource s = Inr d" and "FindStringSubmatch sourceRegex s = Some m"
  shows "Repo d = TrimSuffix (m ! 5) ''.git''"
  using assms unfolding ParseSource_def Let_def
  by (auto split: if_splits)

text \<open>Claim C8, as amended. The inputs \<open>user/repo\<close>, \<open>github:user/repo\<close> and
  \<open>https://github.com/user/repo\<close> parse to the same descriptor: host \<open>github\<close>, the owner,
  the repository, the reference \<open>HEAD\<close>, no subdirectory and the derived URLs. For every
  input that parses, the repository name is the repository segment of the match with
  one \<open>.git\<close> suffix removed; it still ends in \<open>.git\<close> only when the segment ended in
  \<open>.git.git\<close>.\<close>

theorem ParseSource_normalizes:
  "ParseSource ''user/repo'' = Inr github_user_repo \<and>
   ParseSource ''github:user/repo'' = Inr github_user_repo \<and>
   ParseSource ''https://github.com/user/repo'' = Inr github_user_repo \<and>
   (ParseSource s = Inr d \<longrightarrow>
      (\<exists>m. FindStringSubmatch sourceRegex s = Some m \<and>
           Repo d = TrimSuffix (m ! 5) ''.git'' \<and>
           (HasSuffix (Repo d) ''.git'' \<longrightarrow> HasSuffix (m ! 5) ''.git.git'')))"
proof -
  have a: "ParseSource ''user/repo'' = Inr github_user_repo" by code_simp
  have b: "ParseSource ''github:user/repo'' = Inr github_user_repo" by code_simp
  have c: "ParseSource ''https://github.com/user/repo'' = Inr github_user_repo" by code_simp
  have g: "\<exists>m. FindStringSubmatch sourceRegex s = Some m \<and>
           Repo d = TrimSuffix (m ! 5) ''.git'' \<and>
           (HasSuffix (Repo d) ''.git'' \<longrightarrow> HasSuffix (m ! 5) ''.git.git'')"
    if p: "ParseSource s = Inr d"
  proof -
    from p obtain m where m: "FindStringSubmatch sourceRegex s = Some m"
      unfolding ParseSource_def by (auto split: option.splits)
    have r: "Repo d = TrimSuffix (m ! 5) ''.git''" by (rule ParseSource_Repo[OF p m])
    have "HasSuffix (m ! 5) ''.git.git''" if "HasSuffix (Repo d) ''.git''"
      using TrimSuffix_twice[of "m ! 5" "''.git''"] that r by simp
    with m r show ?thesis by blast
  qed
  from a b c g show ?thesis by blast
qed

text \<open>Claim C8 as stated fails: the repository name of \<open>user/repo.git.git\<close> is \<open>repo.git\<close>.\<close>

theorem ParseSource_git_suffix_counterexample:
  "ParseSource ''user/repo.git.git'' =
     Inr \<lparr>Site = ''github'', Owner = ''user'', Repo = ''repo.git'', Ref = ''HEAD'', Subdir = '''',
          URL = ''https://github.com/user/repo.git'', SSH = ''git@github.com:user/repo.git''\<rparr>"
  by code_simp

text \<open>The SSH form with a \<open>.git\<close> suffix parses to the same descriptor again, the suffix
  removed.\<close>

theorem ParseSource_normalizes_witness:
  "ParseSource ''git@github.com:user/repo.git'' = Inr github_user_repo \<and>
   FindStringSubmatch sourceRegex ''git@github.com:user/repo.git'' =
     Some [''git@github.com:user/repo.git'', '''', ''github.com'', '''', ''user'', ''repo.git'',
           '''', ''''] \<and>
   Repo github_user_repo = TrimSuffix ''repo.git'' ''.git'' \<and>
   HasSuffix (Repo github_user_repo) ''.git'' = False"
proof -
  have p: "ParseSource ''git@github.com:user/repo.git'' = Inr github_user_repo" by code_simp
  have m: "FindStringSubmatch sourceRegex ''git@github.com:user/repo.git'' =
     Some [''git@github.com:user/repo.git'', '''', ''github.com'', '''', ''user'', ''repo.git'',
           '''', '''']"
    by code_simp
  have n: "HasSuffix (Repo github_user_repo) ''.git'' = False" by code_simp
  from ParseSource_normalizes[of "''git@github.com:user/repo.git''" github_user_repo] p m
  have "Repo github_user_repo = TrimSuffix ''repo.git'' ''.git''" by simp
  with p m n show ?thesis by blast
qed

section \<open>Properties of the redirect handlers\<close>

lemma headerGet_headerSet:
  "headerGet (Header (headerSet k v r)) k' = (if k' = k then v else headerGet (Header r) k')"
  by (simp add: headerGet_def headerSet_def update_conv')

lemma Host_headerSet [simp]: "Host (headerSet k v r) = Host r"
  by (simp add: headerSet_def)

lemma Host_fold_headerSet [simp]: "Host (fold (\<lambda>(k, v). headerSet k v) hs r) = Host r"
  by (induction hs arbitrary: r) auto

lemma headerGet_fold_headerSet:
  "headerGet (Header (fold (\<lambda>(k, v). headerSet k v) hs r)) k =
     (case map_of (rev hs) k of Some v \<Rightarrow> v | None \<Rightarrow> headerGet (Header r) k)"
proof (induction hs arbitrary: r)
  case Nil
  show ?case by simp
next
  case (Cons a hs)
  obtain k' v' where a: "a = (k', v')" by (cases a)
  show ?case
    by (simp add: a Cons.IH headerGet_headerSet map_add_def split: option.splits)
qed

lemma distinct_fold_headerSet:
  "distinct (map fst (Header r)) \<Longrightarrow>
   distinct (map fst (Header (fold (\<lambda>(k, v). headerSet k v) hs r)))"
  by (induction hs arbitrary: r) (auto simp: headerSet_def distinct_update)

lemma apiRequest_distinct: "distinct (map fst (Header (apiRequest host hs tok)))"
proof -
  let ?req0 = "headerSet ''User-Agent'' ''ss-plugin-degit''
                 (headerSet ''Accept'' ''application/vnd.github+json''
                   \<lparr>Host = host, Header = []\<rparr>)"
  have "distinct (map fst (Header ?req0))" by (simp add: headerSet_def)
  then have d: "distinct (map fst (Header (fold (\<lambda>(k, v). headerSet k v) hs ?req0)))"
    by (rule distinct_fold_headerSet)
  then have "distinct (map fst (Header (headerSet ''Authorization'' (''Bearer '' @ tok)
                 (fold (\<lambda>(k, v). headerSet k v) hs ?req0))))"
    by (simp add: headerSet_def distinct_update)
  with d show ?thesis by (simp add: apiRequest_def Let_def)
qed

lemma apiRequest_Authorization:
  "tok \<noteq> '''' \<Longrightarrow> map_of (Header (apiRequest host hs tok)) ''Authorization'' = Some (''Bearer '' @ tok)"
  unfolding apiRequest_def Let_def by (simp add: headerSet_def update_conv')

lemma map_of_rev_distinct: "distinct (map fst xs) \<Longrightarrow> map_of (rev xs) = map_of xs"
  by (simp add: map_of_inject_set distinct_rev rev_map flip: rev_map)

text \<open>With the handler of the tarball download the client ends within ten requests,
  whatever the server answers and whatever the library copies.\<close>

lemma tarball_client_capped:
  assumes "length reqs \<le> 9" and "10 \<le> fuel + length reqs"
  shows "fst (clientDo tarballCheckRedirect prepare server fuel reqs req) \<noteq> None \<and>
         length (snd (clientDo tarballCheckRedirect prepare server fuel reqs req)) \<le> 10"
  using assms
proof (induction fuel arbitrary: reqs req)
  case 0
  then show ?case by simp
next
  case (Suc n)
  let ?via = "reqs @ [req]"
  have len: "length ?via \<le> 10" using Suc.prems(1) by simp
  have hdtl: "hd ?via # tl ?via = ?via" by simp
  show ?case
  proof (cases "server req")
    case (Respond status)
    then show ?thesis using len by simp
  next
    case (Redirect host)
    let ?r = "\<lparr>Host = host, Header = prepare ?via host\<rparr>"
    show ?thesis
    proof (cases "10 \<le> length ?via")
      case True
      have "10 \<le> length (hd ?via # tl ?via)" using True unfolding hdtl .
      then have "tarballCheckRedirect ?r (hd ?via) (tl ?via) = Inl TooManyRedirects"
        by (simp add: tarballCheckRedirect_def)
      then show ?thesis using Redirect len by simp
    next
      case False
      have "\<not> 10 \<le> length (hd ?via # tl ?via)" using False unfolding hdtl .
      then obtain nxt where nx: "tarballCheckRedirect ?r (hd ?via) (tl ?via) = Inr nxt"
        by (simp add: tarballCheckRedirect_def Let_def)
      have "length ?via \<le> 9" using False by simp
      moreover have "10 \<le> n + length ?via" using Suc.prems(2) by simp
      ultimately have "fst (clientDo tarballCheckRedirect prepare server n ?via nxt) \<noteq> None \<and>
         length (snd (clientDo tarballCheckRedirect prepare server n ?via nxt)) \<le> 10"
        by (rule Suc.IH)
      then show ?thesis using Redirect nx by simp
    qed
  qed
qed

text \<open>The requests a client has sent begin with the first request.\<close>

lemma clientDo_hd:
  "snd (clientDo check prepare server fuel reqs req) \<noteq> [] \<Longrightarrow>
   hd (snd (clientDo check prepare server fuel reqs req)) = hd (reqs @ [req])"
proof (induction fuel arbitrary: reqs req)
  case 0
  then show ?case by simp
next
  case (Suc n)
  show ?case
  proof (cases "server req")
    case (Respond status)
    then show ?thesis by simp
  next
    case (Redirect host)
    show ?thesis
    proof (cases "check \<lparr>Host = host, Header = prepare (reqs @ [req]) host\<rparr>
                    (hd (reqs @ [req])) (tl (reqs @ [req]))")
      case (Inl e)
      then show ?thesis using Redirect by simp
    next
      case (Inr nxt)
      have ne: "snd (clientDo check prepare server n (reqs @ [req]) nxt) \<noteq> []"
        using Suc.prems Redirect Inr by simp
      have "hd (snd (clientDo check prepare server n (reqs @ [req]) nxt)) = hd ((reqs @ [req]) @ [nxt])"
        using ne by (rule Suc.IH)
      moreover have "hd ((reqs @ [req]) @ [nxt]) = hd (reqs @ [req])" by (cases reqs) simp_all
      ultimately show ?thesis using Redirect Inr by simp
    qed
  qed
qed

text \<open>What the handler of the tarball download leaves in a request that it lets pass.\<close>

lemma tarballCheckRedirect_Inr:
  assumes "tarballCheckRedirect r first earlier = Inr nxt"
  shows "Host nxt = Host r \<and>
         headerGet (Header nxt) ''Authorization'' =
           (if isGitHubDomain (Host r) \<and> headerGet (Header first) ''Authorization'' \<noteq> ''''
            then headerGet (Header first) ''Authorization''
            else headerGet (Header r) ''Authorization'')"
  using assms
  by (auto simp: tarballCheckRedirect_def Let_def headerGet_headerSet split: if_splits)

lemma asPrepared_butlast:
  assumes "asPrepared prepare first (l @ [x])"
  shows "asPrepared prepare first l"
  unfolding asPrepared_def
proof (intro allI impI)
  fix i assume i: "0 < i \<and> i < length l"
  then have "0 < i \<and> i < length (l @ [x])" by simp
  then have "headerGet (Header ((l @ [x]) ! i)) ''Authorization'' =
          (if isGitHubDomain (Host ((l @ [x]) ! i)) \<and> headerGet (Header first) ''Authorization'' \<noteq> ''''
           then headerGet (Header first) ''Authorization''
           else headerGet (prepare (take i (l @ [x])) (Host ((l @ [x]) ! i))) ''Authorization'')"
    using assms unfolding asPrepared_def by blast
  moreover have "(l @ [x]) ! i = l ! i" using i by (simp add: nth_append)
  moreover have "take i (l @ [x]) = take i l" using i by simp
  ultimately show "headerGet (Header (l ! i)) ''Authorization'' =
          (if isGitHubDomain (Host (l ! i)) \<and> headerGet (Header first) ''Authorization'' \<noteq> ''''
           then headerGet (Header first) ''Authorization''
           else headerGet (prepare (take i l) (Host (l ! i))) ''Authorization'')"
    by simp
qed

lemma asPrepared_snoc:
  assumes l: "asPrepared prepare first l"
    and x: "headerGet (Header x) ''Authorization'' =
          (if isGitHubDomain (Host x) \<and> headerGet (Header first) ''Authorization'' \<noteq> ''''
           then headerGet (Header first) ''Authorization''
           else headerGet (prepare l (Host x)) ''Authorization'')"
  shows "asPrepared prepare first (l @ [x])"
  unfolding asPrepared_def
proof (intro allI impI)
  fix i assume i: "0 < i \<and> i < length (l @ [x])"
  show "headerGet (Header ((l @ [x]) ! i)) ''Authorization'' =
          (if isGitHubDomain (Host ((l @ [x]) ! i)) \<and> headerGet (Header first) ''Authorization'' \<noteq> ''''
           then headerGet (Header first) ''Authorization''
           else headerGet (prepare (take i (l @ [x])) (Host ((l @ [x]) ! i))) ''Authorization'')"
  proof (cases "i < length l")
    case True
    have old: "headerGet (Header (l ! i)) ''Authorization'' =
          (if isGitHubDomain (Host (l ! i)) \<and> headerGet (Header first) ''Authorization'' \<noteq> ''''
           then headerGet (Header first) ''Authorization''
           else headerGet (prepare (take i l) (Host (l ! i))) ''Authorization'')"
      using l i True unfolding asPrepared_def by blast
    have n: "(l @ [x]) ! i = l ! i" using True by (simp add: nth_append)
    have t: "take i (l @ [x]) = take i l" using True by simp
    show ?thesis unfolding n t by (rule old)
  next
    case False
    then have e: "i = length l" using i by simp
    have n: "(l @ [x]) ! i = x" using e by simp
    have t: "take i (l @ [x]) = l" using e by simp
    show ?thesis unfolding n t by (rule x)
  qed
qed

text \<open>The handler of the tarball download neither adds the Authorization header to a
  request for a host outside the trusted set nor takes it away: every redirected request
  carries it as the library prepared it.\<close>

lemma tarball_client_asPrepared:
  assumes "hd (reqs @ [req]) = first" and "asPrepared prepare first (reqs @ [req])"
  shows "asPrepared prepare first (snd (clientDo tarballCheckRedirect prepare server fuel reqs req))"
  using assms
proof (induction fuel arbitrary: reqs req)
  case 0
  have "asPrepared prepare first reqs" using "0.prems"(2) by (rule asPrepared_butlast)
  then show ?case by simp
next
  case (Suc n)
  let ?via = "reqs @ [req]"
  show ?case
  proof (cases "server req")
    case (Respond status)
    then show ?thesis using Suc.prems(2) by simp
  next
    case (Redirect h)
    let ?r = "\<lparr>Host = h, Header = prepare ?via h\<rparr>"
    show ?thesis
    proof (cases "tarballCheckRedirect ?r (hd ?via) (tl ?via)")
      case (Inl e)
      then show ?thesis using Redirect Suc.prems(2) by simp
    next
      case (Inr nxt)
      have nx: "tarballCheckRedirect ?r first (tl ?via) = Inr nxt"
        using Inr Suc.prems(1) by simp
      have hn: "Host nxt = h" using tarballCheckRedirect_Inr[OF nx] by simp
      have "headerGet (Header nxt) ''Authorization'' =
           (if isGitHubDomain (Host ?r) \<and> headerGet (Header first) ''Authorization'' \<noteq> ''''
            then headerGet (Header first) ''Authorization''
            else headerGet (Header ?r) ''Authorization'')"
        using tarballCheckRedirect_Inr[OF nx] by (rule conjunct2)
      then have au: "headerGet (Header nxt) ''Authorization'' =
           (if isGitHubDomain (Host nxt) \<and> headerGet (Header first) ''Authorization'' \<noteq> ''''
            then headerGet (Header first) ''Authorization''
            else headerGet (prepare ?via (Host nxt)) ''Authorization'')"
        unfolding hn by simp
      have h1: "hd (?via @ [nxt]) = first" using Suc.prems(1) by (cases reqs) simp_all
      have h2: "asPrepared prepare first (?via @ [nxt])"
        using Suc.prems(2) au by (rule asPrepared_snoc)
      have "asPrepared prepare first (snd (clientDo tarballCheckRedirect prepare server n ?via nxt))"
        using h1 h2 by (rule Suc.IH)
      then show ?thesis using Redirect Inr by simp
    qed
  qed
qed

text \<open>With the handler of \<open>GitHubRequestWithHeaders\<close> a server that always redirects is
  followed for as long as there is fuel.\<close>

lemma api_client_unbounded:
  "fst (clientDo (\<lambda>r first earlier. apiCheckRedirect first r (first # earlier)) prepare
          (\<lambda>r. Redirect h) fuel reqs req) = None \<and>
   length (snd (clientDo (\<lambda>r first earlier. apiCheckRedirect first r (first # earlier)) prepare
          (\<lambda>r. Redirect h) fuel reqs req)) = length reqs + fuel"
  by (induction fuel arbitrary: reqs req) (simp_all add: apiCheckRedirect_def)

text \<open>The handler of \<open>GitHubRequestWithHeaders\<close> overrides the headers of the upcoming
  request with every header of the original one.\<close>

lemma map_of_fold_headerSet:
  "map_of (Header (fold (\<lambda>(k, v). headerSet k v) hs r)) = map_of (Header r) ++ map_of (rev hs)"
proof (induction hs arbitrary: r)
  case Nil
  show ?case by simp
next
  case (Cons a hs)
  obtain k v where a: "a = (k, v)" by (cases a)
  have "map_of (Header (headerSet k v r)) = (map_of (Header r))(k \<mapsto> v)"
    by (simp add: headerSet_def update_conv')
  then show ?case by (simp add: a Cons.IH map_add_def fun_eq_iff split: option.splits)
qed

text \<open>What the library copies of the Authorization header.\<close>

lemma headerGet_filter:
  "headerGet (filter (\<lambda>(k, v). \<not> (sensitive k \<and> strip)) hs) ''Authorization'' =
     (if strip then '''' else headerGet hs ''Authorization'')"
proof (cases strip)
  case True
  have "map_of (filter (\<lambda>(k, v). \<not> sensitive k) hs) ''Authorization'' = None"
    by (induction hs) (auto simp: sensitive_def)
  then show ?thesis using True by (simp add: headerGet_def)
next
  case False
  then show ?thesis by simp
qed

lemma copyHeaders_Authorization:
  "headerGet (copyHeaders idna reqs host) ''Authorization'' =
     (if stripSensitiveHeaders idna reqs host then ''''
      else headerGet (Header (hd reqs)) ''Authorization'')"
  unfolding copyHeaders_def by (rule headerGet_filter)

lemma not_stripped:
  assumes "\<not> stripSensitiveHeaders idna reqs host"
  shows "Host (hd reqs) = host \<or> shouldCopyHeaderOnRedirect idna (Host (hd reqs)) host"
  using assms unfolding stripSensitiveHeaders_def by (auto simp: list_ex_iff)

lemma tarballRequest_Host: "Host (tarballRequest tok) = ''api.github.com''"
  by (simp add: tarballRequest_def Let_def)

lemma tarballRequest_Authorization:
  "headerGet (Header (tarballRequest tok)) ''Authorization'' =
     (if tok \<noteq> '''' then ''Bearer '' @ tok else '''')"
  by (simp add: tarballRequest_def Let_def headerGet_headerSet) (simp add: headerGet_def)

lemma idnaASCIIFromURL_api: "idnaASCIIFromURL idna ''api.github.com'' = ''api.github.com''"
proof -
  have "Hostname ''api.github.com'' = ''api.github.com''" by code_simp
  moreover have "isASCII ''api.github.com''" by code_simp
  ultimately show ?thesis by (simp add: idnaASCIIFromURL_def idnaASCII_def)
qed

text \<open>With the headers the library copies, a redirected request of the tarball download
  that carries an Authorization header goes to a GitHub domain, or to the host name of
  the first request, \<open>api.github.com\<close>, under another port, or to a subdomain of it.\<close>

lemma tarball_client_copyHeaders:
  assumes q: "q \<in> set (drop 1 (snd (tarballClient (copyHeaders idna) server fuel tok)))"
    and auth: "headerGet (Header q) ''Authorization'' \<noteq> ''''"
  shows "isGitHubDomain (Host q) \<or>
         isDomainOrSubdomain (idnaASCIIFromURL idna (Host q)) ''api.github.com''"
proof (cases "isGitHubDomain (Host q)")
  case True
  then show ?thesis by simp
next
  case False
  let ?l = "snd (tarballClient (copyHeaders idna) server fuel tok)"
  let ?first = "tarballRequest tok"
  obtain j where j: "j < length (drop 1 ?l)" and qj: "drop 1 ?l ! j = q"
    using q unfolding in_set_conv_nth by blast
  define i where "i = Suc j"
  have i: "1 \<le> i" "i < length ?l" using j by (simp_all add: i_def)
  have qi: "?l ! i = q" using qj j by (simp add: i_def)
  have ne: "?l \<noteq> []" using i by auto
  have hd: "hd ?l = ?first"
    using clientDo_hd[of tarballCheckRedirect "copyHeaders idna" server fuel "[]" ?first] ne
    by (simp add: tarballClient_def)
  have hdt: "hd (take i ?l) = ?first" using i ne hd by (cases ?l) (auto simp: take_Cons')
  have "asPrepared (copyHeaders idna) ?first ([] @ [?first])" by (simp add: asPrepared_def)
  then have "asPrepared (copyHeaders idna) ?first
      (snd (clientDo tarballCheckRedirect (copyHeaders idna) server fuel [] ?first))"
    by (intro tarball_client_asPrepared) simp
  then have ap: "asPrepared (copyHeaders idna) ?first ?l" by (simp add: tarballClient_def)
  have "0 < i \<and> i < length ?l" using i by simp
  then have "headerGet (Header (?l ! i)) ''Authorization'' =
          (if isGitHubDomain (Host (?l ! i)) \<and> headerGet (Header ?first) ''Authorization'' \<noteq> ''''
           then headerGet (Header ?first) ''Authorization''
           else headerGet (copyHeaders idna (take i ?l) (Host (?l ! i))) ''Authorization'')"
    using ap unfolding asPrepared_def by blast
  then have "headerGet (Header q) ''Authorization'' =
      headerGet (copyHeaders idna (take i ?l) (Host q)) ''Authorization''"
    unfolding qi using False by simp
  then have "headerGet (copyHeaders idna (take i ?l) (Host q)) ''Authorization'' \<noteq> ''''"
    using auth by simp
  then have "\<not> stripSensitiveHeaders idna (take i ?l) (Host q)"
    unfolding copyHeaders_Authorization by (simp split: if_splits)
  then have "Host (hd (take i ?l)) = Host q \<or>
      shouldCopyHeaderOnRedirect idna (Host (hd (take i ?l))) (Host q)"
    by (rule not_stripped)
  then have "''api.github.com'' = Host q \<or> shouldCopyHeaderOnRedirect idna ''api.github.com'' (Host q)"
    unfolding hdt tarballRequest_Host .
  then show ?thesis
  proof
    assume "''api.github.com'' = Host q"
    then have "isGitHubDomain (Host q)" unfolding isGitHubDomain_def by simp
    then show ?thesis by simp
  next
    assume "shouldCopyHeaderOnRedirect idna ''api.github.com'' (Host q)"
    then show ?thesis
      unfolding shouldCopyHeaderOnRedirect_def idnaASCIIFromURL_api by simp
  qed
qed

text \<open>Claim C3, as amended. The redirect handler of the tarball download stops the chain
  with an error once ten requests have been made, so that a download makes ten requests
  at most. Below that it lets the redirect pass and sets the Authorization header of the
  upcoming request to that of the first request when the target host is one of the four
  GitHub domains and that header is not empty; for any other host it neither adds the
  header nor takes it away, so that every redirected request for such a host carries the
  Authorization header just as the library prepared it. The library copies the header
  of the first request to the host name of that request under another port and to its
  subdomains: with the library's headers a redirected request that carries an
  Authorization header goes to one of the four domains, to \<open>api.github.com\<close> under another
  port, or to a subdomain of \<open>api.github.com\<close>. The redirect handler of
  \<open>GitHubRequestWithHeaders\<close> never stops the chain, so that a server which always
  redirects is followed without end, and it overrides the headers of the upcoming
  request with every header of the original request, the bearer token among them,
  whatever the host.\<close>

theorem redirect_policy:
  "(10 \<le> length (first # earlier) \<longrightarrow>
      tarballCheckRedirect r first earlier = Inl TooManyRedirects) \<and>
   (length (first # earlier) < 10 \<longrightarrow>
      (\<exists>r'. tarballCheckRedirect r first earlier = Inr r' \<and> Host r' = Host r \<and>
            headerGet (Header r') ''Authorization'' =
              (if isGitHubDomain (Host r) \<and> headerGet (Header first) ''Authorization'' \<noteq> ''''
               then headerGet (Header first) ''Authorization''
               else headerGet (Header r) ''Authorization''))) \<and>
   (10 \<le> fuel \<longrightarrow>
      fst (tarballClient prepare server fuel tok) \<noteq> None \<and>
      length (snd (tarballClient prepare server fuel tok)) \<le> 10) \<and>
   (\<forall>i. 0 < i \<and> i < length (snd (tarballClient prepare server fuel tok)) \<longrightarrow>
      headerGet (Header (snd (tarballClient prepare server fuel tok) ! i)) ''Authorization'' =
        (if isGitHubDomain (Host (snd (tarballClient prepare server fuel tok) ! i)) \<and> tok \<noteq> ''''
         then ''Bearer '' @ tok
         else headerGet (prepare (take i (snd (tarballClient prepare server fuel tok)))
                (Host (snd (tarballClient prepare server fuel tok) ! i))) ''Authorization'')) \<and>
   (\<forall>q\<in>set (drop 1 (snd (tarballClient (copyHeaders idna) server fuel tok))).
      headerGet (Header q) ''Authorization'' \<noteq> '''' \<longrightarrow>
        isGitHubDomain (Host q) \<or>
        isDomainOrSubdomain (idnaASCIIFromURL idna (Host q)) ''api.github.com'') \<and>
   (\<exists>r'. apiCheckRedirect (apiRequest host hs tok) r via = Inr r' \<and> Host r' = Host r \<and>
         map_of (Header r') = map_of (Header r) ++ map_of (Header (apiRequest host hs tok)) \<and>
         (tok \<noteq> '''' \<longrightarrow> headerGet (Header r') ''Authorization'' = ''Bearer '' @ tok)) \<and>
   fst (apiClient prepare (\<lambda>q. Redirect target) fuel host hs tok) = None \<and>
   length (snd (apiClient prepare (\<lambda>q. Redirect target) fuel host hs tok)) = fuel"
proof -
  let ?l = "snd (tarballClient prepare server fuel tok)"
  let ?req = "apiRequest host hs tok"
  have a: "10 \<le> length (first # earlier) \<longrightarrow>
      tarballCheckRedirect r first earlier = Inl TooManyRedirects"
    by (simp add: tarballCheckRedirect_def)
  have b: "length (first # earlier) < 10 \<longrightarrow>
      (\<exists>r'. tarballCheckRedirect r first earlier = Inr r' \<and> Host r' = Host r \<and>
            headerGet (Header r') ''Authorization'' =
              (if isGitHubDomain (Host r) \<and> headerGet (Header first) ''Authorization'' \<noteq> ''''
               then headerGet (Header first) ''Authorization''
               else headerGet (Header r) ''Authorization''))"
    by (simp add: tarballCheckRedirect_def Let_def headerGet_headerSet)
  have c: "10 \<le> fuel \<longrightarrow>
      fst (tarballClient prepare server fuel tok) \<noteq> None \<and> length ?l \<le> 10"
  proof
    assume "10 \<le> fuel"
    then show "fst (tarballClient prepare server fuel tok) \<noteq> None \<and> length ?l \<le> 10"
      unfolding tarballClient_def by (intro tarball_client_capped) simp_all
  qed
  have "asPrepared prepare (tarballRequest tok) ([] @ [tarballRequest tok])"
    by (simp add: asPrepared_def)
  then have "asPrepared prepare (tarballRequest tok)
      (snd (clientDo tarballCheckRedirect prepare server fuel [] (tarballRequest tok)))"
    by (intro tarball_client_asPrepared) simp
  then have ap: "asPrepared prepare (tarballRequest tok) ?l" by (simp add: tarballClient_def)
  have tk: "(headerGet (Header (tarballRequest tok)) ''Authorization'' \<noteq> '''') = (tok \<noteq> '''')"
    by (simp add: tarballRequest_Authorization)
  have d: "\<forall>i. 0 < i \<and> i < length ?l \<longrightarrow>
      headerGet (Header (?l ! i)) ''Authorization'' =
        (if isGitHubDomain (Host (?l ! i)) \<and> tok \<noteq> ''''
         then ''Bearer '' @ tok
         else headerGet (prepare (take i ?l) (Host (?l ! i))) ''Authorization'')"
    using ap unfolding asPrepared_def tk by (simp add: tarballRequest_Authorization)
  have e: "\<forall>q\<in>set (drop 1 (snd (tarballClient (copyHeaders idna) server fuel tok))).
      headerGet (Header q) ''Authorization'' \<noteq> '''' \<longrightarrow>
        isGitHubDomain (Host q) \<or>
        isDomainOrSubdomain (idnaASCIIFromURL idna (Host q)) ''api.github.com''"
    using tarball_client_copyHeaders by blast
  have m: "map_of (Header (fold (\<lambda>(k, v). headerSet k v) (Header ?req) r)) =
           map_of (Header r) ++ map_of (Header ?req)"
    by (simp add: map_of_fold_headerSet map_of_rev_distinct[OF apiRequest_distinct])
  have t: "tok \<noteq> '''' \<longrightarrow>
      headerGet (Header (fold (\<lambda>(k, v). headerSet k v) (Header ?req) r)) ''Authorization'' =
        ''Bearer '' @ tok"
  proof
    assume "tok \<noteq> ''''"
    then have "map_of (Header ?req) ''Authorization'' = Some (''Bearer '' @ tok)"
      by (rule apiRequest_Authorization)
    then show "headerGet (Header (fold (\<lambda>(k, v). headerSet k v) (Header ?req) r)) ''Authorization'' =
        ''Bearer '' @ tok"
      by (simp add: headerGet_def m)
  qed
  have f: "\<exists>r'. apiCheckRedirect ?req r via = Inr r' \<and> Host r' = Host r \<and>
         map_of (Header r') = map_of (Header r) ++ map_of (Header ?req) \<and>
         (tok \<noteq> '''' \<longrightarrow> headerGet (Header r') ''Authorization'' = ''Bearer '' @ tok)"
    unfolding apiCheckRedirect_def using m t by simp
  have g: "fst (apiClient prepare (\<lambda>q. Redirect target) fuel host hs tok) = None \<and>
           length (snd (apiClient prepare (\<lambda>q. Redirect target) fuel host hs tok)) = fuel"
    unfolding apiClient_def
    using api_client_unbounded[of prepare target fuel "[]" ?req] by simp
  show ?thesis
    by (intro conjI) (rule a, rule b, rule c, rule d, rule e, rule f, rule conjunct1[OF g],
      rule conjunct2[OF g])
qed

text \<open>Claim C3 as stated fails for both clients. After twenty requests the handler of
  \<open>GitHubRequestWithHeaders\<close> still lets a redirect to a host outside the trusted set pass,
  with the bearer token attached; an API request that a server redirects to such a host
  again and again has, twelve requests on, not ended, each of the eleven redirected
  requests carrying the token to that host, although the library had left it out. A
  tarball download redirected to \<open>sub.api.github.com\<close>, or to \<open>api.github.com:8443\<close>,
  neither of them in the trusted set, sends the token there: the library copies it and
  the handler leaves it.\<close>

theorem redirect_policy_counterexample:
  "isGitHubDomain ''evil.example.com'' = False \<and>
   apiCheckRedirect (apiRequest ''api.github.com'' [] ''secret'')
      \<lparr>Host = ''evil.example.com'', Header = []\<rparr>
      (replicate 20 (apiRequest ''api.github.com'' [] ''secret'')) =
     Inr \<lparr>Host = ''evil.example.com'',
          Header = [(''Accept'', ''application/vnd.github+json''),
                    (''User-Agent'', ''ss-plugin-degit''),
                    (''Authorization'', ''Bearer secret'')]\<rparr> \<and>
   headerGet (copyHeaders no_idna [apiRequest ''api.github.com'' [] ''secret''] ''evil.example.com'')
      ''Authorization'' = '''' \<and>
   fst (apiClient (copyHeaders no_idna) evil_server 12 ''api.github.com'' [] ''secret'') = None \<and>
   map (\<lambda>q. (Host q, headerGet (Header q) ''Authorization''))
       (snd (apiClient (copyHeaders no_idna) evil_server 12 ''api.github.com'' [] ''secret'')) =
     (''api.github.com'', ''Bearer secret'') # replicate 11 (''evil.example.com'', ''Bearer secret'') \<and>
   isGitHubDomain ''sub.api.github.com'' = False \<and>
   fst (tarballClient (copyHeaders no_idna) (redirect_once ''sub.api.github.com'') 5 ''secret'') =
     Some (Inr 200) \<and>
   map (\<lambda>q. (Host q, headerGet (Header q) ''Authorization''))
       (snd (tarballClient (copyHeaders no_idna) (redirect_once ''sub.api.github.com'') 5 ''secret'')) =
     [(''api.github.com'', ''Bearer secret''), (''sub.api.github.com'', ''Bearer secret'')] \<and>
   isGitHubDomain ''api.github.com:8443'' = False \<and>
   fst (tarballClient (copyHeaders no_idna) (redirect_once ''api.github.com:8443'') 5 ''secret'') =
     Some (Inr 200) \<and>
   map (\<lambda>q. (Host q, headerGet (Header q) ''Authorization''))
       (snd (tarballClient (copyHeaders no_idna) (redirect_once ''api.github.com:8443'') 5 ''secret'')) =
     [(''api.github.com'', ''Bearer secret''), (''api.github.com:8443'', ''Bearer secret'')]"
proof -
  have a: "isGitHubDomain ''evil.example.com'' = False" by code_simp
  have b: "apiCheckRedirect (apiRequest ''api.github.com'' [] ''secret'')
      \<lparr>Host = ''evil.example.com'', Header = []\<rparr>
      (replicate 20 (apiRequest ''api.github.com'' [] ''secret'')) =
     Inr \<lparr>Host = ''evil.example.com'',
          Header = [(''Accept'', ''application/vnd.github+json''),
                    (''User-Agent'', ''ss-plugin-degit''),
                    (''Authorization'', ''Bearer secret'')]\<rparr>" by code_simp
  have c: "headerGet (copyHeaders no_idna [apiRequest ''api.github.com'' [] ''secret''] ''evil.example.com'')
      ''Authorization'' = ''''" by code_simp
  have d: "fst (apiClient (copyHeaders no_idna) evil_server 12 ''api.github.com'' [] ''secret'') = None"
    by code_simp
  have e: "map (\<lambda>q. (Host q, headerGet (Header q) ''Authorization''))
       (snd (apiClient (copyHeaders no_idna) evil_server 12 ''api.github.com'' [] ''secret'')) =
     (''api.github.com'', ''Bearer secret'') # replicate 11 (''evil.example.com'', ''Bearer secret'')"
    by code_simp
  have f: "isGitHubDomain ''sub.api.github.com'' = False" by code_simp
  have g: "fst (tarballClient (copyHeaders no_idna) (redirect_once ''sub.api.github.com'') 5 ''secret'') =
     Some (Inr 200)" by code_simp
  have h: "map (\<lambda>q. (Host q, headerGet (Header q) ''Authorization''))
       (snd (tarballClient (copyHeaders no_idna) (redirect_once ''sub.api.github.com'') 5 ''secret'')) =
     [(''api.github.com'', ''Bearer secret''), (''sub.api.github.com'', ''Bearer secret'')]"
    by code_simp
  have i: "isGitHubDomain ''api.github.com:8443'' = False" by code_simp
  have j: "fst (tarballClient (copyHeaders no_idna) (redirect_once ''api.github.com:8443'') 5 ''secret'') =
     Some (Inr 200)" by code_simp
  have k: "map (\<lambda>q. (Host q, headerGet (Header q) ''Authorization''))
       (snd (tarballClient (copyHeaders no_idna) (redirect_once ''api.github.com:8443'') 5 ''secret'')) =
     [(''api.github.com'', ''Bearer secret''), (''api.github.com:8443'', ''Bearer secret'')]"
    by code_simp
  show ?thesis
    by (intro conjI) (rule a, rule b, rule c, rule d, rule e, rule f, rule g, rule h, rule i,
      rule j, rule k)
qed

text \<open>A tarball download that the server redirects to a foreign host again and again
  ends at the tenth request, and its second request carries no token; the handler gives
  the token to a request for \<open>codeload.github.com\<close>; the token that a download
  redirected to \<open>sub.api.github.com\<close> sends there goes to a subdomain of the first
  host; an API request redirected to the foreign host carries the token.\<close>

theorem redirect_policy_witness:
  "tarballCheckRedirect \<lparr>Host = ''evil.example.com'', Header = []\<rparr>
      (tarballRequest ''secret'') (replicate 9 (tarballRequest ''secret'')) = Inl TooManyRedirects \<and>
   headerGet (Header (projr (tarballCheckRedirect \<lparr>Host = ''codeload.github.com'', Header = []\<rparr>
      (tarballRequest ''secret'') []))) ''Authorization'' = ''Bearer secret'' \<and>
   fst (tarballClient (copyHeaders no_idna) evil_server 20 ''secret'') \<noteq> None \<and>
   length (snd (tarballClient (copyHeaders no_idna) evil_server 20 ''secret'')) \<le> 10 \<and>
   headerGet (Header (snd (tarballClient (copyHeaders no_idna) evil_server 20 ''secret'') ! 1))
      ''Authorization'' = '''' \<and>
   map (\<lambda>q. (Host q, headerGet (Header q) ''Authorization''))
       (snd (tarballClient (copyHeaders no_idna) evil_server 20 ''secret'')) =
     (''api.github.com'', ''Bearer secret'') # replicate 9 (''evil.example.com'', '''') \<and>
   isDomainOrSubdomain
     (idnaASCIIFromURL no_idna
       (Host (snd (tarballClient (copyHeaders no_idna) (redirect_once ''sub.api.github.com'') 20
                ''secret'') ! 1)))
     ''api.github.com'' \<and>
   headerGet (Header (projr (apiCheckRedirect (apiRequest ''api.github.com'' [] ''secret'')
      \<lparr>Host = ''evil.example.com'', Header = []\<rparr> []))) ''Authorization'' = ''Bearer secret''"
proof -
  let ?evil = "\<lparr>Host = ''evil.example.com'', Header = []\<rparr>"
  let ?good = "\<lparr>Host = ''codeload.github.com'', Header = []\<rparr>"
  let ?req = "tarballRequest ''secret''"
  let ?cp = "copyHeaders no_idna"
  let ?l = "snd (tarballClient ?cp evil_server 20 ''secret'')"
  let ?m = "snd (tarballClient ?cp (redirect_once ''sub.api.github.com'') 20 ''secret'')"
  have l9: "10 \<le> length (?req # replicate 9 ?req)" by simp
  have l0: "length [?req] < 10" by simp
  have g: "isGitHubDomain (Host ?good) \<and> headerGet (Header ?req) ''Authorization'' \<noteq> ''''"
    by code_simp
  have h: "headerGet (Header ?req) ''Authorization'' = ''Bearer secret''" by code_simp
  have tok: "''secret'' \<noteq> ''''" by simp
  have fuel: "(10::nat) \<le> 20" by simp
  note t1 = redirect_policy[where first = ?req and earlier = "replicate 9 ?req" and r = ?evil
              and fuel = 20 and prepare = ?cp and server = evil_server and idna = no_idna
              and tok = "''secret''" and host = "''api.github.com''" and hs = "[]"
              and via = "[]" and target = "''evil.example.com''"]
  note t2 = redirect_policy[where first = ?req and earlier = "[]" and r = ?good
              and fuel = 20 and prepare = ?cp and server = "redirect_once ''sub.api.github.com''"
              and idna = no_idna
              and tok = "''secret''" and host = "''api.github.com''" and hs = "[]"
              and via = "[]" and target = "''evil.example.com''"]
  have a: "tarballCheckRedirect ?evil ?req (replicate 9 ?req) = Inl TooManyRedirects"
    by (rule mp[OF conjunct1[OF t1] l9])
  obtain r' where r': "tarballCheckRedirect ?good ?req [] = Inr r'"
    and auth: "headerGet (Header r') ''Authorization'' =
              (if isGitHubDomain (Host ?good) \<and> headerGet (Header ?req) ''Authorization'' \<noteq> ''''
               then headerGet (Header ?req) ''Authorization''
               else headerGet (Header ?good) ''Authorization'')"
    using mp[OF conjunct1[OF conjunct2[OF t2]] l0] by blast
  have "headerGet (Header r') ''Authorization'' = headerGet (Header ?req) ''Authorization''"
    unfolding auth using g by (rule if_P)
  then have b: "headerGet (Header (projr (tarballCheckRedirect ?good ?req []))) ''Authorization'' =
        ''Bearer secret''"
    unfolding r' sum.sel h .
  note rest1 = conjunct2[OF conjunct2[OF t1]]
  have c: "fst (tarballClient ?cp evil_server 20 ''secret'') \<noteq> None \<and> length ?l \<le> 10"
    by (rule mp[OF conjunct1[OF rest1] fuel])
  have i1: "0 < (1::nat) \<and> 1 < length ?l" by code_simp
  have foreign: "\<not> (isGitHubDomain (Host (?l ! 1)) \<and> ''secret'' \<noteq> '''')" by code_simp
  have stripped: "headerGet (?cp (take 1 ?l) (Host (?l ! 1))) ''Authorization'' = ''''"
    by code_simp
  have "headerGet (Header (?l ! 1)) ''Authorization'' =
        (if isGitHubDomain (Host (?l ! 1)) \<and> ''secret'' \<noteq> ''''
         then ''Bearer '' @ ''secret''
         else headerGet (?cp (take 1 ?l) (Host (?l ! 1))) ''Authorization'')"
    by (rule mp[OF spec[OF conjunct1[OF conjunct2[OF rest1]]] i1])
  also have "\<dots> = headerGet (?cp (take 1 ?l) (Host (?l ! 1))) ''Authorization''"
    using foreign by (rule if_not_P)
  finally have d: "headerGet (Header (?l ! 1)) ''Authorization'' = ''''"
    unfolding stripped .
  have e: "map (\<lambda>q. (Host q, headerGet (Header q) ''Authorization'')) ?l =
     (''api.github.com'', ''Bearer secret'') # replicate 9 (''evil.example.com'', '''')"
    by code_simp
  note rest2 = conjunct2[OF conjunct2[OF conjunct2[OF conjunct2[OF t2]]]]
  have mem: "?m ! 1 \<in> set (drop 1 ?m)" by code_simp
  have sent: "headerGet (Header (?m ! 1)) ''Authorization'' \<noteq> ''''" by code_simp
  have outside: "\<not> isGitHubDomain (Host (?m ! 1))" by code_simp
  have "isGitHubDomain (Host (?m ! 1)) \<or>
        isDomainOrSubdomain (idnaASCIIFromURL no_idna (Host (?m ! 1))) ''api.github.com''"
    by (rule mp[OF bspec[OF conjunct1[OF rest2] mem] sent])
  then have f: "isDomainOrSubdomain (idnaASCIIFromURL no_idna (Host (?m ! 1))) ''api.github.com''"
    using outside by blast
  obtain q' where q': "apiCheckRedirect (apiRequest ''api.github.com'' [] ''secret'') ?evil [] = Inr q'"
    and bearer: "''secret'' \<noteq> '''' \<longrightarrow> headerGet (Header q') ''Authorization'' = ''Bearer '' @ ''secret''"
    using conjunct1[OF conjunct2[OF conjunct2[OF conjunct2[OF rest1]]]] by blast
  have "headerGet (Header q') ''Authorization'' = ''Bearer '' @ ''secret''"
    by (rule mp[OF bearer tok])
  then have k: "headerGet (Header (projr (apiCheckRedirect (apiRequest ''api.github.com'' [] ''secret'')
      ?evil []))) ''Authorization'' = ''Bearer secret''"
    unfolding q' sum.sel by simp
  show ?thesis
    by (intro conjI) (rule a, rule b, rule conjunct1[OF c], rule conjunct2[OF c], rule d, rule e,
      rule f, rule k)
qed

section \<open>Properties of Clone\<close>

text \<open>In offline mode a reference absent from the cache makes \<open>cloneWithTar\<close> fail at
  once.\<close>

lemma cloneWithTar_offline_miss:
  assumes "Cache opts" and "GetCachedHash cacheDir (Ref src) w = ''''"
  shows "cloneWithTar opts src dest cacheDir w = (Failed (RefNotInCache (Ref src)), w)"
  using assms by (simp add: cloneWithTar_def resolveHash_def)

text \<open>Whatever the mode, offline or not, a failure of \<open>cloneWithTar\<close> makes \<open>Clone\<close> clear
  the destination and run \<open>cloneWithGit\<close>.\<close>

lemma cloneByMode_falls_back:
  assumes "Mode opts \<noteq> ''git''"
    and "cloneWithTar opts src dest cacheDir w = (Failed err, w1)"
  shows "cloneByMode opts src dest cacheDir w =
     (case cloneWithGit opts src dest
             (snd (RemoveAll
                (sayIf (Verbose opts) (Info ''Falling back to git clone mode...'')
                   (sayIf (Verbose opts) (WarningE ''Tarball download failed: '' err) w1))
                dest)) of
        (Failed gitErr, w4) \<Rightarrow> (Failed (TarAndGitFailed err gitErr), w4)
      | (r, w4) \<Rightarrow> (r, w4))"
  using assms by (simp add: cloneByMode_def Let_def)

text \<open>Claim C2 fails on the code. In offline mode, with an empty cache, \<open>cloneWithTar\<close>
  fails with the cache-miss error for \<open>HEAD\<close>; \<open>Clone\<close> then runs
  \<open>git clone --depth 1 https://github.com/user/repo.git /work/repo\<close> and, git reaching
  the remote, returns success with the cloned tree in the destination.\<close>

theorem Clone_offline_falls_back_to_git:
  "Cache offline_opts \<and>
   fst (cloneWithTar offline_opts github_user_repo ''/work/repo''
          (GetRepoCacheDir github_user_repo empty_cache_with_git) empty_cache_with_git) =
     Failed (RefNotInCache ''HEAD'') \<and>
   fst (Clone 1 offline_opts github_user_repo ''/work/repo'' empty_cache_with_git) = Done \<and>
   calls (snd (Clone 1 offline_opts github_user_repo ''/work/repo'' empty_cache_with_git)) =
     [RunGit [''clone'', ''--depth'', ''1'', ''https://github.com/user/repo.git'', ''/work/repo'']] \<and>
   files (snd (Clone 1 offline_opts github_user_repo ''/work/repo'' empty_cache_with_git)) =
     [(''/work'', DirNode), (''/work/repo'', DirNode),
      (''/work/repo/README.md'', FileNode (Bytes ''hello''))]"
proof -
  have a: "Cache offline_opts" by (simp add: offline_opts_def)
  have b: "fst (cloneWithTar offline_opts github_user_repo ''/work/repo''
          (GetRepoCacheDir github_user_repo empty_cache_with_git) empty_cache_with_git) =
     Failed (RefNotInCache ''HEAD'')" by code_simp
  have c: "fst (Clone 1 offline_opts github_user_repo ''/work/repo'' empty_cache_with_git) = Done"
    by code_simp
  have d: "calls (snd (Clone 1 offline_opts github_user_repo ''/work/repo'' empty_cache_with_git)) =
     [RunGit [''clone'', ''--depth'', ''1'', ''https://github.com/user/repo.git'', ''/work/repo'']]"
    by code_simp
  have e: "files (snd (Clone 1 offline_opts github_user_repo ''/work/repo'' empty_cache_with_git)) =
     [(''/work'', DirNode), (''/work/repo'', DirNode),
      (''/work/repo/README.md'', FileNode (Bytes ''hello''))]"
    by code_simp
  from a b c d e show ?thesis by blast
qed

section \<open>Properties of the manifest\<close>









end
